theory Spec2Isabelle
  imports Main "HOL-Library.Signed_Division" "HOL-Library.Sublist"
begin

section \<open>Gas oracle bot: fetcher, update cycle, configuration and publisher\<close>

text \<open>
  A shallow embedding of the wei (wide integer) variant of the oracle bot:
  \<^item> the fetcher (\<open>fetchChainGasPrice\<close>, \<open>calculateStats\<close>, \<open>fetchAllGasPrices\<close>,
    \<open>detectBuySignal\<close>),
  \<^item> the configuration (\<open>loadConfig\<close>, \<open>validateConfig\<close>) and the entry point \<open>main\<close>
    with its update cycle \<open>runUpdateCycle\<close> and its timer,
  \<^item> the publisher (\<open>publishSingleUpdate\<close>, \<open>publishBatchUpdate\<close>).

  Prices are JavaScript strings holding the decimal text of a BigInt; a string is a list of
  code units, each below 256. Exceptions are values of \<open>js_error\<close>; a function that may throw
  returns \<open>js_error + 'a\<close>. The network, the clock, the environment variables and the
  Sui SDK are inputs of the model.
\<close>

subsection \<open>BigInt and its decimal text\<close>

datatype js_error = SyntaxError | RangeError | TypeError | RpcError | SinkError

text \<open>The value of a digit character, for the radices 2, 8, 10 and 16.\<close>

definition digit_val :: "char \<Rightarrow> nat option" where
  "digit_val c =
     map_of
       [(CHR ''0'', 0), (CHR ''1'', 1), (CHR ''2'', 2), (CHR ''3'', 3), (CHR ''4'', 4),
        (CHR ''5'', 5), (CHR ''6'', 6), (CHR ''7'', 7), (CHR ''8'', 8), (CHR ''9'', 9),
        (CHR ''a'', 10), (CHR ''b'', 11), (CHR ''c'', 12), (CHR ''d'', 13), (CHR ''e'', 14),
        (CHR ''f'', 15),
        (CHR ''A'', 10), (CHR ''B'', 11), (CHR ''C'', 12), (CHR ''D'', 13), (CHR ''E'', 14),
        (CHR ''F'', 15)] c"

definition digit_char :: "nat \<Rightarrow> char" where
  "digit_char d = ''0123456789'' ! d"

text \<open>
  \<open>StrWhiteSpaceChar\<close> among the code units below 256: TAB, LF, VT, FF, CR, SP and NBSP.
\<close>

definition is_ws :: "char \<Rightarrow> bool" where
  "is_ws c = ((of_char c :: nat) \<in> {9, 10, 11, 12, 13, 32, 160})"

definition trim :: "string \<Rightarrow> string" where
  "trim s = rev (dropWhile is_ws (rev (dropWhile is_ws s)))"

fun digits_value :: "nat \<Rightarrow> nat \<Rightarrow> string \<Rightarrow> nat option" where
  "digits_value b acc [] = Some acc"
| "digits_value b acc (c # cs) =
     (case digit_val c of
        None \<Rightarrow> None
      | Some d \<Rightarrow> if d < b then digits_value b (acc * b + d) cs else None)"

text \<open>One or more digits of radix \<open>b\<close>.\<close>

definition parse_digits :: "nat \<Rightarrow> string \<Rightarrow> nat option" where
  "parse_digits b s = (if s = [] then None else digits_value b 0 s)"

text \<open>
  \<open>BigInt(s)\<close> for a string \<open>s\<close> (StringToBigInt): white space is trimmed, the empty text
  is \<open>0n\<close>, a decimal literal may carry a sign, a literal with the prefix \<open>0x\<close>, \<open>0o\<close> or
  \<open>0b\<close> may not, and anything else throws a SyntaxError (\<open>None\<close>).
\<close>

definition BigInt :: "string \<Rightarrow> int option" where
  "BigInt s =
     (case trim s of
        [] \<Rightarrow> Some 0
      | c # rest \<Rightarrow>
          if c = CHR ''-'' then map_option (\<lambda>n. - int n) (parse_digits 10 rest)
          else if c = CHR ''+'' then map_option int (parse_digits 10 rest)
          else if c = CHR ''0'' \<and> rest \<noteq> [] \<and> hd rest \<in> {CHR ''x'', CHR ''X''}
            then map_option int (parse_digits 16 (tl rest))
          else if c = CHR ''0'' \<and> rest \<noteq> [] \<and> hd rest \<in> {CHR ''o'', CHR ''O''}
            then map_option int (parse_digits 8 (tl rest))
          else if c = CHR ''0'' \<and> rest \<noteq> [] \<and> hd rest \<in> {CHR ''b'', CHR ''B''}
            then map_option int (parse_digits 2 (tl rest))
          else map_option int (parse_digits 10 (c # rest)))"

fun dec_digits :: "nat \<Rightarrow> string" where
  "dec_digits n =
     (if n < 10 then [digit_char n] else dec_digits (n div 10) @ [digit_char (n mod 10)])"

declare dec_digits.simps [simp del]

text \<open>\<open>BigInt.prototype.toString()\<close>: the canonical decimal text.\<close>

definition toString :: "int \<Rightarrow> string" where
  "toString i = (if i < 0 then CHR ''-'' # dec_digits (nat (- i)) else dec_digits (nat i))"

text \<open>
  \<open>Number(b)\<close> for a BigInt \<open>b\<close>, and the numbers computed from it. A double holds every
  integer of magnitude at most \<open>2 ^ 53\<close> exactly; beyond that the conversion rounds, and the
  model keeps only the sign of the result (\<open>Huge True\<close> is a positive double above
  \<open>2 ^ 53\<close>).
\<close>

datatype js_number = Exact int | Huge bool

definition Number :: "int \<Rightarrow> js_number" where
  "Number b = (if \<bar>b\<bar> \<le> 2 ^ 53 then Exact b else Huge (0 < b))"

text \<open>\<open>x > 10\<close> on such a number.\<close>

definition gt10 :: "js_number \<Rightarrow> bool" where
  "gt10 x = (case x of Exact n \<Rightarrow> 10 < n | Huge pos \<Rightarrow> pos)"

text \<open>\<open>Math.round\<close> of a double that holds an integer is that double.\<close>

definition Math_round :: "js_number \<Rightarrow> js_number" where
  "Math_round x = x"

subsection \<open>The fetcher's data\<close>

record ChainConfig =
  name :: string
  rpcUrl :: string
  enabled :: bool

record GasPriceData =
  chain :: string
  priceWei :: string
  high24h :: string
  low24h :: string
  timestamp :: nat

record Stats =
  stats_max :: string
  stats_min :: string

record BuySignal =
  isBuySignal :: bool
  savingsPercent :: js_number

definition MAX_HISTORY_SIZE :: nat where
  "MAX_HISTORY_SIZE = 1000"

subsection \<open>calculateStats\<close>

text \<open>The \<open>for (const price of prices)\<close> loop, with \<open>max\<close> and \<open>min\<close> as its state.\<close>

fun stats_loop :: "int \<Rightarrow> int \<Rightarrow> string list \<Rightarrow> js_error + (int \<times> int)" where
  "stats_loop mx mn [] = Inr (mx, mn)"
| "stats_loop mx mn (price # rest) =
     (case BigInt price of
        None \<Rightarrow> Inl SyntaxError
      | Some p \<Rightarrow> stats_loop (if p > mx then p else mx) (if p < mn then p else mn) rest)"

definition calculateStats :: "string list \<Rightarrow> js_error + Stats" where
  "calculateStats prices =
     (case prices of
        [] \<Rightarrow> Inr \<lparr>stats_max = ''0'', stats_min = ''0''\<rparr>
      | p0 # _ \<Rightarrow>
          (case BigInt p0 of
             None \<Rightarrow> Inl SyntaxError
           | Some v0 \<Rightarrow>
               (case stats_loop v0 v0 prices of
                  Inl e \<Rightarrow> Inl e
                | Inr (mx, mn) \<Rightarrow> Inr \<lparr>stats_max = toString mx, stats_min = toString mn\<rparr>)))"

subsection \<open>detectBuySignal\<close>

text \<open>
  BigInt division \<open>/\<close> truncates towards zero (\<open>sdiv\<close>); on non-negative operands it is
  the floor division \<open>div\<close>.
\<close>

definition detectBuySignal :: "GasPriceData \<Rightarrow> js_error + BuySignal" where
  "detectBuySignal data =
     (case BigInt (priceWei data) of
        None \<Rightarrow> Inl SyntaxError
      | Some price \<Rightarrow>
          (case BigInt (high24h data) of
             None \<Rightarrow> Inl SyntaxError
           | Some high \<Rightarrow>
               (case BigInt (low24h data) of
                  None \<Rightarrow> Inl SyntaxError
                | Some low \<Rightarrow>
                    (let avg = (high + low) sdiv 2 in
                     if avg = 0 \<or> price \<ge> avg
                     then Inr \<lparr>isBuySignal = False, savingsPercent = Exact 0\<rparr>
                     else
                       (let savings = Number (((avg - price) * 100) sdiv avg) in
                        Inr \<lparr>isBuySignal = gt10 savings,
                             savingsPercent = Math_round savings\<rparr>)))))"

text \<open>
  The reference definition, in the words of the specification, on non-negative integers:
  the average by floor division, no signal at a zero average or at a price that reaches the
  average, otherwise the percentage by integer division and a signal above 10.
\<close>

definition spec_detectBuySignal :: "nat \<Rightarrow> nat \<Rightarrow> nat \<Rightarrow> bool \<times> nat" where
  "spec_detectBuySignal high low priceValue =
     (let average = (high + low) div 2 in
      if average = 0 \<or> priceValue \<ge> average then (False, 0)
      else
        (let pct = ((average - priceValue) * 100) div average in (pct > 10, pct)))"

subsection \<open>fetchChainGasPrice and fetchAllGasPrices\<close>

text \<open>\<open>priceHistory\<close>, a \<open>Map<string, string[]>\<close> keyed by the chain's name.\<close>

type_synonym price_history = "string \<rightharpoonup> string list"

text \<open>
  What \<open>new JsonRpcProvider(chain.rpcUrl)\<close> and \<open>await provider.send('eth_gasPrice', [])\<close>
  give: a throw or a rejection, or a result, which is \<open>null\<close> (\<open>None\<close>) or a string, as
  the JSON-RPC quantity of \<open>eth_gasPrice\<close> is. Every request is taken to settle.
\<close>

datatype rpc_reply = Rejected | Resolved "string option"

text \<open>\<open>xs.slice(-k)\<close> for a positive \<open>k\<close>: the last \<open>k\<close> elements, all of them if there are fewer.\<close>

definition slice_last :: "nat \<Rightarrow> 'a list \<Rightarrow> 'a list" where
  "slice_last k xs = drop (length xs - k) xs"

text \<open>The history update of \<open>fetchChainGasPrice\<close>: \<open>push\<close>, then the cut to the last 1000.\<close>

definition push_history :: "string list \<Rightarrow> string \<Rightarrow> string list" where
  "push_history history price =
     (let pushed = history @ [price] in
      if length pushed > MAX_HISTORY_SIZE then slice_last MAX_HISTORY_SIZE pushed else pushed)"

text \<open>\<open>priceHistory.get(name) || []\<close>.\<close>

definition window :: "price_history \<Rightarrow> string \<Rightarrow> string list" where
  "window h n = (case h n of None \<Rightarrow> [] | Some xs \<Rightarrow> xs)"

text \<open>
  \<open>fetchChainGasPrice\<close>, given the reply of the chain's node and the clock reading
  \<open>Date.now()\<close>. Every throw inside the \<open>try\<close> ends in \<open>return null\<close>; the history written
  before a throw stays written.
\<close>

definition fetchChainGasPrice ::
  "rpc_reply \<Rightarrow> nat \<Rightarrow> ChainConfig \<Rightarrow> price_history \<Rightarrow> GasPriceData option \<times> price_history"
where
  "fetchChainGasPrice reply now cfg h =
     (case reply of
        Rejected \<Rightarrow> (None, h)
      | Resolved None \<Rightarrow> (None, h)
      | Resolved (Some gasPrice) \<Rightarrow>
          if gasPrice = [] then (None, h)
          else
            (case BigInt gasPrice of
               None \<Rightarrow> (None, h)
             | Some v \<Rightarrow>
                 (let price = toString v;
                      history = push_history (window h (name cfg)) price;
                      h' = h(name cfg \<mapsto> history)
                  in case calculateStats history of
                       Inl e \<Rightarrow> (None, h')
                     | Inr stats \<Rightarrow>
                         (Some \<lparr>chain = name cfg, priceWei = price,
                                 high24h = stats_max stats, low24h = stats_min stats,
                                 timestamp = now\<rparr>, h'))))"

text \<open>
  \<open>Promise.all(enabledChains.map(chain => fetchChainGasPrice(chain)))\<close>: one result per
  enabled chain, in the order of the chains. The part of each call after its \<open>await\<close> runs
  without interruption; the model runs the calls in the order of the chains.
\<close>

fun fetch_each ::
  "(ChainConfig \<Rightarrow> rpc_reply) \<Rightarrow> (ChainConfig \<Rightarrow> nat) \<Rightarrow> ChainConfig list \<Rightarrow> price_history
     \<Rightarrow> GasPriceData option list \<times> price_history"
where
  "fetch_each send now [] h = ([], h)"
| "fetch_each send now (c # cs) h =
     (let (r, h1) = fetchChainGasPrice (send c) (now c) c h;
          (rs, h2) = fetch_each send now cs h1
      in (r # rs, h2))"

definition fetchAllGasPrices ::
  "(ChainConfig \<Rightarrow> rpc_reply) \<Rightarrow> (ChainConfig \<Rightarrow> nat) \<Rightarrow> ChainConfig list \<Rightarrow> price_history
     \<Rightarrow> GasPriceData list \<times> price_history"
where
  "fetchAllGasPrices send now chain_list h =
     (let enabledChains = filter enabled chain_list;
          (results, h') = fetch_each send now enabledChains h
      in (map the (filter (\<lambda>r. r \<noteq> None) results), h'))"

text \<open>
  \<open>weiToGwei\<close> renders a price for the log with floating point; the model keeps whether it
  throws, which it does when the text is no BigInt.
\<close>

definition weiToGwei :: "string \<Rightarrow> js_error + unit" where
  "weiToGwei weiStr = (case BigInt weiStr of None \<Rightarrow> Inl SyntaxError | Some wei \<Rightarrow> Inr ())"

text \<open>A reply from which \<open>fetchChainGasPrice\<close> reads a price.\<close>

definition has_price :: "rpc_reply \<Rightarrow> bool" where
  "has_price reply =
     (case reply of
        Rejected \<Rightarrow> False
      | Resolved None \<Rightarrow> False
      | Resolved (Some gasPrice) \<Rightarrow> gasPrice \<noteq> [] \<and> BigInt gasPrice \<noteq> None)"

definition price_of :: "rpc_reply \<Rightarrow> int" where
  "price_of reply =
     (case reply of
        Resolved (Some gasPrice) \<Rightarrow> (case BigInt gasPrice of Some v \<Rightarrow> v | None \<Rightarrow> 0)
      | _ \<Rightarrow> 0)"

text \<open>Every stored price is the text of a BigInt.\<close>

definition history_ok :: "price_history \<Rightarrow> bool" where
  "history_ok h = (\<forall>xs \<in> ran h. \<forall>x \<in> set xs. BigInt x \<noteq> None)"

text \<open>\<open>low24h \<le> priceWei \<le> high24h\<close>, read as BigInts.\<close>

definition within_bounds :: "GasPriceData \<Rightarrow> bool" where
  "within_bounds r =
     (case BigInt (low24h r) of
        None \<Rightarrow> False
      | Some lo \<Rightarrow>
          (case BigInt (priceWei r) of
             None \<Rightarrow> False
           | Some p \<Rightarrow>
               (case BigInt (high24h r) of
                  None \<Rightarrow> False
                | Some hi \<Rightarrow> lo \<le> p \<and> p \<le> hi)))"

subsection \<open>Configuration\<close>

record SuiConfig =
  network :: string
  privateKey :: string
  packageId :: string
  oracleObjectId :: string
  adminCapId :: string

text \<open>\<open>updateIntervalMs\<close> and \<open>batchSize\<close> come from \<open>parseInt\<close>: a number, or NaN (\<open>None\<close>).\<close>

record Config =
  sui :: SuiConfig
  chains_list :: "ChainConfig list"
  updateIntervalMs :: "js_number option"
  batchSize :: "js_number option"

text \<open>
  \<open>parseInt(s)\<close> with no radix: leading white space is skipped, a sign is read, the prefix
  \<open>0x\<close> selects radix 16, and the longest run of digits is the value; with no digit the
  result is NaN.
\<close>

definition radix_digit :: "nat \<Rightarrow> char \<Rightarrow> bool" where
  "radix_digit r c = (case digit_val c of None \<Rightarrow> False | Some d \<Rightarrow> d < r)"

definition parseInt :: "string \<Rightarrow> js_number option" where
  "parseInt s =
     (let s1 = dropWhile is_ws s;
          neg = (s1 \<noteq> [] \<and> hd s1 = CHR ''-'');
          s2 = (if s1 \<noteq> [] \<and> hd s1 \<in> {CHR ''+'', CHR ''-''} then tl s1 else s1);
          hex = (length s2 \<ge> 2 \<and> s2 ! 0 = CHR ''0'' \<and> s2 ! 1 \<in> {CHR ''x'', CHR ''X''});
          r = (if hex then 16 else 10);
          s3 = (if hex then drop 2 s2 else s2);
          z = takeWhile (radix_digit r) s3
      in case parse_digits r z of
           None \<Rightarrow> None
         | Some m \<Rightarrow> Some (Number (if neg then - int m else int m)))"

text \<open>
  \<open>process.env.KEY || dflt\<close> on the environment of the process, \<open>.env\<close> file included: the
  default stands in for a variable that is unset or empty.
\<close>

definition env_or :: "(string \<rightharpoonup> string) \<Rightarrow> string \<Rightarrow> string \<Rightarrow> string" where
  "env_or env key dflt = (case env key of None \<Rightarrow> dflt | Some v \<Rightarrow> if v = [] then dflt else v)"

definition loadConfig :: "(string \<rightharpoonup> string) \<Rightarrow> Config" where
  "loadConfig env =
     \<lparr>sui =
        \<lparr>network = env_or env ''SUI_NETWORK'' ''testnet'',
         privateKey = env_or env ''SUI_PRIVATE_KEY'' [],
         packageId = env_or env ''ORACLE_PACKAGE_ID'' ''0x0'',
         oracleObjectId = env_or env ''ORACLE_OBJECT_ID'' ''0x0'',
         adminCapId = env_or env ''ADMIN_CAP_ID'' ''0x0''\<rparr>,
      chains_list =
        [\<lparr>name = ''ethereum'', rpcUrl = env_or env ''ETHEREUM_RPC'' ''https://eth.llamarpc.com'',
          enabled = True\<rparr>,
         \<lparr>name = ''base'', rpcUrl = env_or env ''BASE_RPC'' ''https://mainnet.base.org'',
          enabled = True\<rparr>,
         \<lparr>name = ''arbitrum'',
          rpcUrl = env_or env ''ARBITRUM_RPC'' ''https://arb1.arbitrum.io/rpc'', enabled = True\<rparr>,
         \<lparr>name = ''polygon'', rpcUrl = env_or env ''POLYGON_RPC'' ''https://polygon-rpc.com'',
          enabled = True\<rparr>,
         \<lparr>name = ''optimism'', rpcUrl = env_or env ''OPTIMISM_RPC'' ''https://mainnet.optimism.io'',
          enabled = True\<rparr>,
         \<lparr>name = ''arc'', rpcUrl = env_or env ''ARC_RPC'' ''https://rpc.arc.io'',
          enabled = True\<rparr>],
      updateIntervalMs = parseInt (env_or env ''UPDATE_INTERVAL_MS'' ''500''),
      batchSize = parseInt (env_or env ''BATCH_SIZE'' ''5'')\<rparr>"

record Validation =
  valid :: bool
  errors :: "string list"

text \<open>\<open>s.includes(t)\<close>: \<open>t\<close> occurs in \<open>s\<close>.\<close>

fun str_includes :: "string \<Rightarrow> string \<Rightarrow> bool" where
  "str_includes [] t = (t = [])"
| "str_includes (c # s) t = (prefix t (c # s) \<or> str_includes s t)"

definition validateConfig :: "Config \<Rightarrow> Validation" where
  "validateConfig config =
     (let errors1 =
            (if privateKey (sui config) = [] then [''SUI_PRIVATE_KEY is required''] else []);
          errors2 = errors1 @
            (if packageId (sui config) = ''0x0''
             then [''ORACLE_PACKAGE_ID not set (will run in demo mode)''] else []);
          errors3 = errors2 @
            (if oracleObjectId (sui config) = ''0x0'' then [''ORACLE_OBJECT_ID not set''] else []);
          errors4 = errors3 @
            (if adminCapId (sui config) = ''0x0'' then [''ADMIN_CAP_ID not set''] else [])
      in \<lparr>valid = (length (filter (\<lambda>e. \<not> str_includes e ''demo mode'') errors4) = 0),
          errors = errors4\<rparr>)"

subsection \<open>The publisher\<close>

text \<open>The move calls the publisher builds.\<close>

datatype tx =
    UpdateGasPrice string string string string int int int
  | BatchUpdateGasPrices string string string "string list" "int list"

text \<open>
  The Sui SDK: whether its argument builders (\<open>tx.object\<close>, \<open>tx.pure.u128\<close>, ...) accept a
  move call's arguments or throw, and what \<open>client.signAndExecuteTransaction\<close> gives, the
  digest or a rejection.
\<close>

record sdk =
  accepts :: "tx \<Rightarrow> bool"
  signAndExecuteTransaction :: "tx \<Rightarrow> js_error + string"

text \<open>
  \<open>publishSingleUpdate\<close>, on the list \<open>sub\<close> of the transactions given to
  \<open>signAndExecuteTransaction\<close> so far. Every throw inside the \<open>try\<close> ends in \<open>return null\<close>.
\<close>

definition publishSingleUpdate ::
  "Config \<Rightarrow> sdk \<Rightarrow> GasPriceData \<Rightarrow> tx list \<Rightarrow> string option \<times> tx list"
where
  "publishSingleUpdate config k data sub =
     (if priceWei data = ''0'' then (None, sub)
      else
        (case BigInt (priceWei data) of
           None \<Rightarrow> (None, sub)
         | Some price \<Rightarrow>
             (case BigInt (high24h data) of
                None \<Rightarrow> (None, sub)
              | Some high \<Rightarrow>
                  (case BigInt (low24h data) of
                     None \<Rightarrow> (None, sub)
                   | Some low \<Rightarrow>
                       (let t = UpdateGasPrice
                                  (packageId (sui config) @ ''::oracle::update_gas_price'')
                                  (adminCapId (sui config)) (oracleObjectId (sui config))
                                  (chain data) price high low
                        in if \<not> accepts k t then (None, sub)
                           else
                             (case signAndExecuteTransaction k t of
                                Inl e \<Rightarrow> (None, sub @ [t])
                              | Inr digest \<Rightarrow>
                                  (case weiToGwei (priceWei data) of
                                     Inl e \<Rightarrow> (None, sub @ [t])
                                   | Inr u \<Rightarrow> (Some digest, sub @ [t]))))))))"

text \<open>\<open>validData.map(d => weiToGwei(d.priceWei))\<close> for the summary line.\<close>

fun summary :: "GasPriceData list \<Rightarrow> js_error + unit" where
  "summary [] = Inr ()"
| "summary (d # ds) = (case weiToGwei (priceWei d) of Inl e \<Rightarrow> Inl e | Inr u \<Rightarrow> summary ds)"

definition publishBatchUpdate ::
  "Config \<Rightarrow> sdk \<Rightarrow> GasPriceData list \<Rightarrow> tx list \<Rightarrow> string option \<times> tx list"
where
  "publishBatchUpdate config k dataArray sub =
     (let validData = filter (\<lambda>d. priceWei d \<noteq> ''0'') dataArray in
      if length validData = 0 then (None, sub)
      else
        (case those (map (\<lambda>d. BigInt (priceWei d)) validData) of
           None \<Rightarrow> (None, sub)
         | Some pricesWei \<Rightarrow>
             (let t = BatchUpdateGasPrices
                        (packageId (sui config) @ ''::oracle::batch_update_gas_prices'')
                        (adminCapId (sui config)) (oracleObjectId (sui config))
                        (map chain validData) pricesWei
              in if \<not> accepts k t then (None, sub)
                 else
                   (case signAndExecuteTransaction k t of
                      Inl e \<Rightarrow> (None, sub @ [t])
                    | Inr digest \<Rightarrow>
                        (case summary validData of
                           Inl e \<Rightarrow> (None, sub @ [t])
                         | Inr u \<Rightarrow> (Some digest, sub @ [t]))))))"

subsection \<open>main and its update cycle\<close>

text \<open>
  What the start of \<open>main\<close> meets outside the environment variables: whether
  \<open>new SuiPublisher(config)\<close> returns or throws, and what \<open>checkOracleHealth\<close> answers.
\<close>

record startup =
  publisher_constructs :: bool
  oracle_healthy :: bool

datatype main_outcome = Exit nat | UpdateLoop

text \<open>
  \<open>main\<close> up to the line \<open>Starting update loop...\<close>, on the environment variables
  \<open>env\<close>. A throw escapes to \<open>main().catch\<close>, which exits with code 1.
\<close>

definition main :: "(string \<rightharpoonup> string) \<Rightarrow> startup \<Rightarrow> main_outcome" where
  "main env st =
     (let config = loadConfig env;
          validation = validateConfig config
      in if \<not> valid validation then Exit 1
         else if \<not> publisher_constructs st then Exit 1
         else if packageId (sui config) = ''0x0'' then UpdateLoop
         else if \<not> oracle_healthy st then Exit 1
         else UpdateLoop)"

record bot =
  updateCount :: nat
  errorCount :: nat
  priceHistory :: price_history
  submitted :: "tx list"

text \<open>The logging loop of the cycle: \<open>detectBuySignal(price)\<close>, then \<open>weiToGwei\<close>.\<close>

fun log_prices :: "GasPriceData list \<Rightarrow> js_error + unit" where
  "log_prices [] = Inr ()"
| "log_prices (price # rest) =
     (case detectBuySignal price of
        Inl e \<Rightarrow> Inl e
      | Inr signal \<Rightarrow>
          (case weiToGwei (priceWei price) of Inl e \<Rightarrow> Inl e | Inr u \<Rightarrow> log_prices rest))"

fun publish_each :: "Config \<Rightarrow> sdk \<Rightarrow> GasPriceData list \<Rightarrow> tx list \<Rightarrow> tx list" where
  "publish_each config k [] sub = sub"
| "publish_each config k (price # rest) sub =
     publish_each config k rest (snd (publishSingleUpdate config k price sub))"

text \<open>
  \<open>prices.length >= config.batchSize\<close>; a comparison with NaN is false, and the length of
  an array is below \<open>2 ^ 53\<close>.
\<close>

definition reaches_batch :: "nat \<Rightarrow> js_number option \<Rightarrow> bool" where
  "reaches_batch n b =
     (case b of
        None \<Rightarrow> False
      | Some (Exact m) \<Rightarrow> int n \<ge> m
      | Some (Huge pos) \<Rightarrow> \<not> pos)"

text \<open>
  The body of the \<open>try\<close> in \<open>runUpdateCycle\<close>, from the outcome of
  \<open>await fetchAllGasPrices(config.chains)\<close> on. \<open>Inl e\<close>: the body threw \<open>e\<close>;
  \<open>Inr True\<close>: it reached \<open>updateCount++\<close>; \<open>Inr False\<close>: it returned at the empty batch.
\<close>

definition cycle_body ::
  "Config \<Rightarrow> sdk \<Rightarrow> js_error + GasPriceData list \<Rightarrow> tx list \<Rightarrow> (js_error + bool) \<times> tx list"
where
  "cycle_body config k fetched sub =
     (case fetched of
        Inl e \<Rightarrow> (Inl e, sub)
      | Inr prices \<Rightarrow>
          if length prices = 0 then (Inr False, sub)
          else
            (case log_prices prices of
               Inl e \<Rightarrow> (Inl e, sub)
             | Inr u \<Rightarrow>
                 if packageId (sui config) \<noteq> ''0x0'' then
                   (if reaches_batch (length prices) (batchSize config)
                    then (Inr True, snd (publishBatchUpdate config k prices sub))
                    else (Inr True, publish_each config k prices sub))
                 else (Inr True, sub)))"

text \<open>\<open>runUpdateCycle\<close> from the outcome of the fetch on: the body, then the counters.\<close>

definition finish_cycle :: "Config \<Rightarrow> sdk \<Rightarrow> js_error + GasPriceData list \<Rightarrow> bot \<Rightarrow> bot" where
  "finish_cycle config k fetched s =
     (case cycle_body config k fetched (submitted s) of
        (Inl e, sub) \<Rightarrow> s\<lparr>errorCount := errorCount s + 1, submitted := sub\<rparr>
      | (Inr reached, sub) \<Rightarrow>
          if reached then s\<lparr>updateCount := updateCount s + 1, submitted := sub\<rparr>
          else s\<lparr>submitted := sub\<rparr>)"

text \<open>\<open>runUpdateCycle\<close> with the fetcher of this repository.\<close>

definition runUpdateCycle ::
  "Config \<Rightarrow> sdk \<Rightarrow> (ChainConfig \<Rightarrow> rpc_reply) \<Rightarrow> (ChainConfig \<Rightarrow> nat) \<Rightarrow> bot \<Rightarrow> bot"
where
  "runUpdateCycle config k send now s =
     (let (prices, h) = fetchAllGasPrices send now (chains_list config) (priceHistory s)
      in finish_cycle config k (Inr prices) (s\<lparr>priceHistory := h\<rparr>))"

text \<open>The cycles of a run, one after the other, each with its replies and clock.\<close>

fun run_cycles ::
  "Config \<Rightarrow> sdk \<Rightarrow> ((ChainConfig \<Rightarrow> rpc_reply) \<times> (ChainConfig \<Rightarrow> nat)) list \<Rightarrow> bot \<Rightarrow> bot"
where
  "run_cycles config k [] s = s"
| "run_cycles config k ((send, now) # rest) s =
     run_cycles config k rest (runUpdateCycle config k send now s)"

subsection \<open>The timer\<close>

text \<open>
  \<open>setInterval(runUpdateCycle, config.updateIntervalMs)\<close>: at every tick the timer calls
  \<open>runUpdateCycle\<close>, which runs up to its \<open>await\<close> and is in flight until the awaited work
  settles. The events of the loop are the ticks and the ends of cycles in flight; the state
  counts the cycles the ticks started and the cycles in flight. It starts where \<open>main\<close>
  has awaited its first cycle and sets the timer.
\<close>

datatype loop_event = Tick | CycleEnds

record loop_state =
  started :: nat
  inFlight :: nat

definition loop_start :: loop_state where
  "loop_start = \<lparr>started = 0, inFlight = 0\<rparr>"

fun loop_step :: "loop_state \<Rightarrow> loop_event \<Rightarrow> loop_state" where
  "loop_step s Tick = s\<lparr>started := started s + 1, inFlight := inFlight s + 1\<rparr>"
| "loop_step s CycleEnds = s\<lparr>inFlight := inFlight s - 1\<rparr>"

definition loop_run :: "loop_event list \<Rightarrow> loop_state" where
  "loop_run evs = foldl loop_step loop_start evs"

subsection \<open>One source over many cycles\<close>

text \<open>
  The fetches of one chain, cycle after cycle, each with its reply and clock reading; the
  result is the history after the last one.
\<close>

fun fetch_many :: "ChainConfig \<Rightarrow> (rpc_reply \<times> nat) list \<Rightarrow> price_history \<Rightarrow> price_history" where
  "fetch_many c [] h = h"
| "fetch_many c ((reply, t) # rest) h =
     fetch_many c rest (snd (fetchChainGasPrice reply t c h))"

text \<open>The prices those fetches read, in the order of their arrival.\<close>

definition appended :: "(rpc_reply \<times> nat) list \<Rightarrow> string list" where
  "appended rs =
     map (\<lambda>(reply, t). toString (price_of reply)) (filter (\<lambda>(reply, t). has_price reply) rs)"

subsection \<open>Example inputs\<close>

definition example_config :: Config where
  "example_config =
     \<lparr>sui = \<lparr>network = ''testnet'', privateKey = ''AKx5'', packageId = ''0x2a'',
              oracleObjectId = ''0x2b'', adminCapId = ''0x2c''\<rparr>,
      chains_list =
        [\<lparr>name = ''ethereum'', rpcUrl = ''https://eth.llamarpc.com'', enabled = True\<rparr>,
         \<lparr>name = ''base'', rpcUrl = ''https://mainnet.base.org'', enabled = True\<rparr>],
      updateIntervalMs = Some (Exact 500), batchSize = Some (Exact 5)\<rparr>"

text \<open>An environment with the key and the three identifiers set.\<close>

definition example_env :: "string \<rightharpoonup> string" where
  "example_env =
     [''SUI_PRIVATE_KEY'' \<mapsto> ''AKx5'', ''ORACLE_PACKAGE_ID'' \<mapsto> ''0x2a'',
      ''ORACLE_OBJECT_ID'' \<mapsto> ''0x2b'', ''ADMIN_CAP_ID'' \<mapsto> ''0x2c'']"

text \<open>An SDK that accepts every move call and executes it.\<close>

definition example_sdk :: sdk where
  "example_sdk = \<lparr>accepts = (\<lambda>t. True), signAndExecuteTransaction = (\<lambda>t. Inr ''digest'')\<rparr>"

definition fresh_bot :: bot where
  "fresh_bot = \<lparr>updateCount = 0, errorCount = 0, priceHistory = Map.empty, submitted = []\<rparr>"

section \<open>Properties\<close>

subsection \<open>Decimal text round trip\<close>

lemma digit_val_digit_char: "d < 10 \<Longrightarrow> digit_val (digit_char d) = Some d"
proof -
  assume "d < 10"
  then have "d \<in> {0, 1, 2, 3, 4, 5, 6, 7, 8, 9}" by auto
  then show ?thesis
    by (auto simp: digit_val_def digit_char_def)
qed

lemma digit_char_cases:
  "d < 10 \<Longrightarrow> digit_char d \<in> set ''0123456789''"
  unfolding digit_char_def by (rule nth_mem) simp

lemma dec_digits_nonempty: "dec_digits n \<noteq> []"
  by (subst dec_digits.simps) simp

lemma dec_digits_chars: "c \<in> set (dec_digits n) \<Longrightarrow> c \<in> set ''0123456789''"
proof (induction n arbitrary: c rule: dec_digits.induct)
  case (1 n)
  show ?case
  proof (cases "n < 10")
    case True
    with "1.prems" have "c = digit_char n"
      by (subst (asm) dec_digits.simps) simp
    with True show ?thesis using digit_char_cases by blast
  next
    case False
    with "1.prems" have "c \<in> set (dec_digits (n div 10)) \<or> c = digit_char (n mod 10)"
      by (subst (asm) dec_digits.simps) auto
    then show ?thesis
    proof
      assume "c \<in> set (dec_digits (n div 10))"
      with "1.IH" False show ?thesis by blast
    next
      assume "c = digit_char (n mod 10)"
      moreover have "n mod 10 < 10" by simp
      ultimately show ?thesis using digit_char_cases by blast
    qed
  qed
qed

lemma digits_value_snoc:
  "digits_value b acc (cs @ [c]) =
     (case digits_value b acc cs of
        None \<Rightarrow> None
      | Some m \<Rightarrow>
          (case digit_val c of
             None \<Rightarrow> None
           | Some d \<Rightarrow> if d < b then Some (m * b + d) else None))"
  by (induction cs arbitrary: acc) (auto split: option.splits)

lemma digits_value_dec_digits: "digits_value 10 0 (dec_digits n) = Some n"
proof (induction n rule: dec_digits.induct)
  case (1 n)
  show ?case
  proof (cases "n < 10")
    case True
    then show ?thesis
      by (subst dec_digits.simps) (simp add: digit_val_digit_char)
  next
    case False
    with "1.IH" have ih: "digits_value 10 0 (dec_digits (n div 10)) = Some (n div 10)"
      by simp
    have "n mod 10 < 10" by simp
    then have dv: "digit_val (digit_char (n mod 10)) = Some (n mod 10)"
      by (rule digit_val_digit_char)
    from False show ?thesis
      by (subst dec_digits.simps) (simp add: digits_value_snoc ih dv)
  qed
qed

lemma parse_digits_dec_digits: "parse_digits 10 (dec_digits n) = Some n"
  by (simp add: parse_digits_def dec_digits_nonempty digits_value_dec_digits)

lemma digit_not_ws: "c \<in> set ''0123456789'' \<Longrightarrow> \<not> is_ws c"
  by (auto simp: is_ws_def)

lemma trim_id:
  assumes "s \<noteq> []" and "\<not> is_ws (hd s)" and "\<not> is_ws (last s)"
  shows "trim s = s"
proof -
  from assms have a: "dropWhile is_ws s = s"
    by (cases s) auto
  from assms have "rev s \<noteq> []" and "\<not> is_ws (hd (rev s))"
    by (simp_all add: hd_rev)
  then have "dropWhile is_ws (rev s) = rev s"
    by (cases "rev s") auto
  with a show ?thesis by (simp add: trim_def)
qed

lemma trim_dec_digits: "trim (dec_digits n) = dec_digits n"
proof (rule trim_id)
  show ne: "dec_digits n \<noteq> []" by (rule dec_digits_nonempty)
  from ne have "hd (dec_digits n) \<in> set (dec_digits n)" by simp
  then show "\<not> is_ws (hd (dec_digits n))"
    using dec_digits_chars digit_not_ws by blast
  from ne have "last (dec_digits n) \<in> set (dec_digits n)" by simp
  then show "\<not> is_ws (last (dec_digits n))"
    using dec_digits_chars digit_not_ws by blast
qed

lemma BigInt_dec_digits: "BigInt (dec_digits n) = Some (int n)"
proof -
  obtain c rest where cr: "dec_digits n = c # rest"
    using dec_digits_nonempty by (cases "dec_digits n") auto
  have c: "c \<in> set ''0123456789''"
    using dec_digits_chars [of c n] cr by simp
  have r: "rest \<noteq> [] \<Longrightarrow> hd rest \<in> set ''0123456789''"
    using dec_digits_chars [of "hd rest" n] cr by simp
  have c1: "c \<noteq> CHR ''-''" "c \<noteq> CHR ''+''" using c by auto
  have r1: "(c = CHR ''0'' \<and> rest \<noteq> [] \<and> hd rest \<in> {CHR ''x'', CHR ''X''}) = False"
    "(c = CHR ''0'' \<and> rest \<noteq> [] \<and> hd rest \<in> {CHR ''o'', CHR ''O''}) = False"
    "(c = CHR ''0'' \<and> rest \<noteq> [] \<and> hd rest \<in> {CHR ''b'', CHR ''B''}) = False"
    using r by auto
  have t: "trim (c # rest) = c # rest"
    using trim_dec_digits [of n] cr by simp
  have "BigInt (dec_digits n) = map_option int (parse_digits 10 (c # rest))"
    unfolding cr BigInt_def t by (simp only: list.case c1 r1 if_False)
  then show ?thesis
    using parse_digits_dec_digits [of n] cr by simp
qed

lemma BigInt_minus_dec_digits:
  "BigInt (CHR ''-'' # dec_digits n) = Some (- int n)"
proof -
  have ne: "dec_digits n \<noteq> []" by (rule dec_digits_nonempty)
  then have "last (dec_digits n) \<in> set (dec_digits n)" by simp
  then have "\<not> is_ws (last (dec_digits n))"
    using dec_digits_chars digit_not_ws by blast
  moreover have "\<not> is_ws CHR ''-''" by (simp add: is_ws_def)
  ultimately have "trim (CHR ''-'' # dec_digits n) = CHR ''-'' # dec_digits n"
    using ne by (intro trim_id) simp_all
  then show ?thesis
    by (simp add: BigInt_def parse_digits_dec_digits)
qed

lemma BigInt_toString [simp]: "BigInt (toString i) = Some i"
  by (simp add: toString_def BigInt_dec_digits BigInt_minus_dec_digits)

lemma toString_inj: "toString a = toString b \<Longrightarrow> a = b"
  by (metis BigInt_toString option.inject)

subsection \<open>detectBuySignal against its reference definition\<close>

lemma sdiv_nonneg: "0 \<le> a \<Longrightarrow> 0 \<le> b \<Longrightarrow> (a::int) sdiv b = a div b"
  by (auto simp: signed_divide_int_def sgn_if)

lemma BigInt_literals:
  "BigInt ''120'' = Some 120" "BigInt ''80'' = Some 80" "BigInt ''85'' = Some 85"
  "BigInt ''95'' = Some 95" "BigInt ''100'' = Some 100"
  by (simp_all add: BigInt_def trim_def is_ws_def parse_digits_def digit_val_def)

lemma detectBuySignal_spec:
  assumes "BigInt (high24h d) = Some (int h)" "BigInt (low24h d) = Some (int l)"
    "BigInt (priceWei d) = Some (int p)"
  shows "detectBuySignal d =
     Inr \<lparr>isBuySignal = fst (spec_detectBuySignal h l p),
          savingsPercent = Exact (int (snd (spec_detectBuySignal h l p)))\<rparr>"
proof -
  define avg where "avg = (h + l) div 2"
  have a: "(int h + int l) sdiv 2 = int avg"
    by (simp add: sdiv_nonneg avg_def zdiv_int)
  show ?thesis
  proof (cases "avg = 0 \<or> p \<ge> avg")
    case True
    then show ?thesis
      using assms a by (auto simp: detectBuySignal_def spec_detectBuySignal_def avg_def Let_def)
  next
    case False
    then have lt: "p < avg" "0 < avg" by auto
    define pct where "pct = ((avg - p) * 100) div avg"
    have "((int avg - int p) * 100) sdiv int avg = int pct"
      using lt by (simp add: sdiv_nonneg pct_def zdiv_int)
    moreover have "pct \<le> 100"
    proof -
      have "(avg - p) * 100 \<le> 100 * avg" by simp
      then have "((avg - p) * 100) div avg \<le> (100 * avg) div avg" by (rule div_le_mono)
      with lt show ?thesis by (simp add: pct_def)
    qed
    then have "\<bar>int pct\<bar> \<le> 2 ^ 53" by simp
    ultimately show ?thesis
      using assms a False
      by (simp add: detectBuySignal_def spec_detectBuySignal_def avg_def [symmetric]
          pct_def [symmetric] Let_def Number_def gt10_def Math_round_def)
  qed
qed

text \<open>
  Claim C1. On every record whose \<open>high24h\<close>, \<open>low24h\<close> and \<open>priceWei\<close> are texts of
  non-negative integers \<open>h\<close>, \<open>l\<close> and \<open>p\<close>, \<open>detectBuySignal\<close> returns what the reference
  definition gives: the average \<open>(h + l) div 2\<close>; no signal and 0 percent when the average is
  0 or \<open>p\<close> reaches it; otherwise the percentage \<open>((average - p) * 100) div average\<close>, by
  integer division, and a signal exactly when that percentage is above 10. With high 120 and
  low 80, the price 85 gives 15 percent and a signal, 95 gives 5 percent and no signal, and
  100, the average itself, gives no signal.
\<close>

theorem detectBuySignal_conforms:
  "(BigInt (high24h d) = Some (int h) \<and> BigInt (low24h d) = Some (int l) \<and>
    BigInt (priceWei d) = Some (int p) \<longrightarrow>
      detectBuySignal d =
        Inr \<lparr>isBuySignal = fst (spec_detectBuySignal h l p),
             savingsPercent = Exact (int (snd (spec_detectBuySignal h l p)))\<rparr>) \<and>
   detectBuySignal
     \<lparr>chain = c, priceWei = ''85'', high24h = ''120'', low24h = ''80'', timestamp = t\<rparr>
     = Inr \<lparr>isBuySignal = True, savingsPercent = Exact 15\<rparr> \<and>
   detectBuySignal
     \<lparr>chain = c, priceWei = ''95'', high24h = ''120'', low24h = ''80'', timestamp = t\<rparr>
     = Inr \<lparr>isBuySignal = False, savingsPercent = Exact 5\<rparr> \<and>
   detectBuySignal
     \<lparr>chain = c, priceWei = ''100'', high24h = ''120'', low24h = ''80'', timestamp = t\<rparr>
     = Inr \<lparr>isBuySignal = False, savingsPercent = Exact 0\<rparr>"
proof -
  have ex:
    "detectBuySignal
       \<lparr>chain = c, priceWei = ''85'', high24h = ''120'', low24h = ''80'', timestamp = t\<rparr>
       = Inr \<lparr>isBuySignal = True, savingsPercent = Exact 15\<rparr>"
    "detectBuySignal
       \<lparr>chain = c, priceWei = ''95'', high24h = ''120'', low24h = ''80'', timestamp = t\<rparr>
       = Inr \<lparr>isBuySignal = False, savingsPercent = Exact 5\<rparr>"
    "detectBuySignal
       \<lparr>chain = c, priceWei = ''100'', high24h = ''120'', low24h = ''80'', timestamp = t\<rparr>
       = Inr \<lparr>isBuySignal = False, savingsPercent = Exact 0\<rparr>"
    by (simp_all add: detectBuySignal_def BigInt_literals sdiv_nonneg Number_def gt10_def
        Math_round_def)
  show ?thesis using detectBuySignal_spec [of d h l p] ex by blast
qed

text \<open>
  The theorem at high 9, low 7 (written in hexadecimal) and price 7: the average is 8 and the
  percentage is 100 div 8 = 12, the quotient 12.5 cut to its integer part.
\<close>

theorem detectBuySignal_conforms_witness:
  "BigInt ''9'' = Some (int 9) \<and> BigInt ''0x7'' = Some (int 7) \<and> BigInt ''7'' = Some (int 7) \<and>
   detectBuySignal
     \<lparr>chain = ''base'', priceWei = ''7'', high24h = ''9'', low24h = ''0x7'', timestamp = 0\<rparr>
     = Inr \<lparr>isBuySignal = True, savingsPercent = Exact 12\<rparr>"
proof -
  have b: "BigInt ''9'' = Some (int 9)" "BigInt ''0x7'' = Some (int 7)"
    "BigInt ''7'' = Some (int 7)"
    by (simp_all add: BigInt_def trim_def is_ws_def parse_digits_def digit_val_def)
  have s: "spec_detectBuySignal 9 7 7 = (True, 12)"
    by (simp add: spec_detectBuySignal_def)
  show ?thesis
    using detectBuySignal_conforms
      [of "\<lparr>chain = ''base'', priceWei = ''7'', high24h = ''9'', low24h = ''0x7'',
             timestamp = 0\<rparr>" 9 7 7]
      b s by simp
qed

subsection \<open>The history window\<close>

lemma slice_last_push:
  "push_history (slice_last MAX_HISTORY_SIZE xs) v = slice_last MAX_HISTORY_SIZE (xs @ [v])"
proof (cases "length xs < 1000")
  case True
  then show ?thesis
    by (simp add: push_history_def slice_last_def Let_def MAX_HISTORY_SIZE_def)
next
  case False
  then have "Suc (length xs) - 1000 = Suc (length xs - 1000)"
    and "length xs - (length xs - 1000) = 1000" by simp_all
  with False show ?thesis
    by (simp add: push_history_def slice_last_def Let_def MAX_HISTORY_SIZE_def)
qed

lemma length_slice_last: "length (slice_last k xs) = min (length xs) k"
  by (auto simp: slice_last_def)

lemma fetch_history:
  "snd (fetchChainGasPrice reply t c h) =
     (if has_price reply
      then h(name c \<mapsto> push_history (window h (name c)) (toString (price_of reply)))
      else h)"
  by (auto simp: fetchChainGasPrice_def has_price_def price_of_def Let_def
      split: rpc_reply.splits option.splits sum.splits)

lemma window_fetch:
  "window (snd (fetchChainGasPrice reply t c h)) (name c) =
     (if has_price reply then push_history (window h (name c)) (toString (price_of reply))
      else window h (name c))"
  by (simp add: fetch_history window_def)

lemma fetch_many_snoc:
  "fetch_many c (rs @ [(reply, t)]) h = snd (fetchChainGasPrice reply t c (fetch_many c rs h))"
  by (induction c rs h rule: fetch_many.induct) simp_all

lemma appended_snoc:
  "appended (rs @ [(reply, t)]) =
     (if has_price reply then appended rs @ [toString (price_of reply)] else appended rs)"
  by (simp add: appended_def)

lemma window_fetch_many:
  "window (fetch_many c rs Map.empty) (name c) = slice_last MAX_HISTORY_SIZE (appended rs)"
proof (induction rs rule: rev_induct)
  case Nil
  show ?case by (simp add: window_def appended_def slice_last_def)
next
  case (snoc x rs)
  obtain reply t where x: "x = (reply, t)" by (cases x)
  show ?case
    unfolding x fetch_many_snoc window_fetch appended_snoc
    by (simp add: snoc.IH slice_last_push)
qed

lemma push_history_slice:
  "push_history w v = slice_last MAX_HISTORY_SIZE (w @ [v])"
  by (simp add: push_history_def slice_last_def Let_def)

lemma window_fetch_many_from:
  "window (fetch_many c rs h) (name c) =
     (if appended rs = [] then window h (name c)
      else slice_last MAX_HISTORY_SIZE (window h (name c) @ appended rs))"
proof (induction rs rule: rev_induct)
  case Nil
  show ?case by (simp add: appended_def)
next
  case (snoc x rs)
  obtain reply t where x: "x = (reply, t)" by (cases x)
  show ?case
  proof (cases "has_price reply")
    case False
    with snoc show ?thesis
      unfolding x fetch_many_snoc window_fetch appended_snoc by simp
  next
    case True
    show ?thesis
    proof (cases "appended rs = []")
      case e: True
      with True snoc show ?thesis
        unfolding x fetch_many_snoc window_fetch appended_snoc
        by (simp add: push_history_slice)
    next
      case e: False
      with True snoc show ?thesis
        unfolding x fetch_many_snoc window_fetch appended_snoc
        by (simp add: slice_last_push)
    qed
  qed
qed

lemma push_history_full_example:
  "push_history (''5'' # replicate 999 ''7'') ''9'' = replicate 999 ''7'' @ [''9'']"
  by (simp add: push_history_def slice_last_def MAX_HISTORY_SIZE_def)

text \<open>
  Claim C2. The window of a source is bounded and first-in first-out. For a chain with no
  history yet and every sequence of fetches of that chain, the window afterwards holds at
  most 1000 values (\<open>MAX_HISTORY_SIZE\<close>); it holds exactly the most recent
  \<open>min n 1000\<close> of the \<open>n\<close> values appended, in the order of their arrival; and one more
  fetch that reads a price appends it, dropping the single oldest value when the window is
  already full. A fetch that reads no price leaves the window as it is. From any history,
  once a price is appended the window is the last 1000 values of the earlier window
  followed by the appended prices.
\<close>

theorem history_window_fifo:
  "MAX_HISTORY_SIZE = 1000 \<and>
   length (window (fetch_many c rs Map.empty) (name c)) \<le> 1000 \<and>
   length (window (fetch_many c rs Map.empty) (name c)) = min (length (appended rs)) 1000 \<and>
   window (fetch_many c rs Map.empty) (name c) =
     drop (length (appended rs) - min (length (appended rs)) 1000) (appended rs) \<and>
   window (fetch_many c (rs @ [(reply, t)]) Map.empty) (name c) =
     (if \<not> has_price reply then window (fetch_many c rs Map.empty) (name c)
      else if length (window (fetch_many c rs Map.empty) (name c)) < 1000
      then window (fetch_many c rs Map.empty) (name c) @ [toString (price_of reply)]
      else tl (window (fetch_many c rs Map.empty) (name c)) @ [toString (price_of reply)]) \<and>
   window (fetch_many c rs h) (name c) =
     (if appended rs = [] then window h (name c)
      else slice_last 1000 (window h (name c) @ appended rs))"
proof -
  let ?w = "window (fetch_many c rs Map.empty) (name c)"
  have w: "?w = slice_last 1000 (appended rs)"
    using window_fetch_many [of c rs] by (simp add: MAX_HISTORY_SIZE_def)
  have l: "length ?w = min (length (appended rs)) 1000"
    unfolding w by (rule length_slice_last)
  have d: "?w = drop (length (appended rs) - min (length (appended rs)) 1000) (appended rs)"
    unfolding w by (simp add: slice_last_def min_def)
  have s: "window (fetch_many c (rs @ [(reply, t)]) Map.empty) (name c) =
     (if \<not> has_price reply then ?w
      else if length ?w < 1000 then ?w @ [toString (price_of reply)]
      else tl ?w @ [toString (price_of reply)])"
  proof (cases "has_price reply")
    case False
    then show ?thesis by (simp add: fetch_many_snoc window_fetch)
  next
    case True
    have "window (fetch_many c (rs @ [(reply, t)]) Map.empty) (name c) =
        push_history ?w (toString (price_of reply))"
      using True by (simp add: fetch_many_snoc window_fetch)
    also have "\<dots> = (if length ?w < 1000 then ?w @ [toString (price_of reply)]
      else tl ?w @ [toString (price_of reply)])"
      using l by (cases ?w) (auto simp: push_history_def Let_def MAX_HISTORY_SIZE_def slice_last_def)
    finally show ?thesis using True by simp
  qed
  have g: "window (fetch_many c rs h) (name c) =
     (if appended rs = [] then window h (name c)
      else slice_last 1000 (window h (name c) @ appended rs))"
    using window_fetch_many_from [of c rs h] by (simp add: MAX_HISTORY_SIZE_def)
  from l d s g show ?thesis by (simp add: MAX_HISTORY_SIZE_def)
qed

subsection \<open>calculateStats\<close>

lemma stats_loop_values:
  "map BigInt prices = map Some vs \<Longrightarrow>
     stats_loop mx mn prices = Inr (fold max vs mx, fold min vs mn)"
proof (induction prices arbitrary: vs mx mn)
  case Nil
  then show ?case by simp
next
  case (Cons p ps)
  then obtain v vs' where vs: "vs = v # vs'" "BigInt p = Some v" "map BigInt ps = map Some vs'"
    by (cases vs) auto
  have "(if mx < v then v else mx) = max v mx" "(if v < mn then v else mn) = min v mn"
    by (simp_all add: max_def min_def)
  with Cons.IH [OF vs(3)] vs show ?case by simp
qed

lemma calculateStats_values:
  assumes "prices \<noteq> []" and "map BigInt prices = map Some vs"
  shows "calculateStats prices =
     Inr \<lparr>stats_max = toString (Max (set vs)), stats_min = toString (Min (set vs))\<rparr>"
proof -
  from assms obtain p ps v vs' where s: "prices = p # ps" "vs = v # vs'" "BigInt p = Some v"
    by (cases prices; cases vs) auto
  have "stats_loop v v prices = Inr (fold max vs v, fold min vs v)"
    using assms(2) by (rule stats_loop_values)
  moreover have "fold max vs v = Max (set vs)" "fold min vs v = Min (set vs)"
    using Max.set_eq_fold [of v vs'] Min.set_eq_fold [of v vs'] by (simp_all add: s)
  ultimately show ?thesis
    using s by (simp add: calculateStats_def)
qed

lemma calculateStats_single:
  "calculateStats [toString v] = Inr \<lparr>stats_max = toString v, stats_min = toString v\<rparr>"
  using calculateStats_values [of "[toString v]" "[v]"] by simp

lemma toString_big: "toString (2 ^ 64 + 1) = ''18446744073709551617''"
  by (simp add: toString_def dec_digits.simps digit_char_def)

text \<open>
  Claim C3. For every non-empty window whose entries are texts of the integers \<open>vs\<close>,
  \<open>calculateStats\<close> returns the text of the exact maximum of \<open>vs\<close> as \<open>max\<close> and of
  the exact minimum as \<open>min\<close>; on a window of one element both are that element. The
  arithmetic is on unbounded integers: the text of a value read back is the value
  (\<open>BigInt (toString v) = Some v\<close>), and the value \<open>2 ^ 64 + 1\<close>, appended to an empty
  window, comes back from the stats digit for digit.
\<close>

theorem calculateStats_exact:
  "(prices \<noteq> [] \<and> map BigInt prices = map Some vs \<longrightarrow>
      calculateStats prices =
        Inr \<lparr>stats_max = toString (Max (set vs)), stats_min = toString (Min (set vs))\<rparr>) \<and>
   calculateStats [toString v] = Inr \<lparr>stats_max = toString v, stats_min = toString v\<rparr> \<and>
   BigInt (toString v) = Some v \<and>
   calculateStats (push_history [] (toString (2 ^ 64 + 1))) =
     Inr \<lparr>stats_max = ''18446744073709551617'', stats_min = ''18446744073709551617''\<rparr>"
proof -
  have "push_history [] (toString (2 ^ 64 + 1)) = [toString (2 ^ 64 + 1)]"
    by (simp add: push_history_def MAX_HISTORY_SIZE_def)
  then have "calculateStats (push_history [] (toString (2 ^ 64 + 1))) =
     Inr \<lparr>stats_max = ''18446744073709551617'', stats_min = ''18446744073709551617''\<rparr>"
    using calculateStats_single [of "2 ^ 64 + 1"] by (simp only: toString_big)
  then show ?thesis
    using calculateStats_values [of prices vs] calculateStats_single [of v] by simp
qed

text \<open>
  The theorem on a window of three entries, one of them above \<open>2 ^ 64\<close> and written in
  hexadecimal.
\<close>

theorem calculateStats_exact_witness:
  "[''5'', ''0x10000000000000001'', ''3''] \<noteq> [] \<and>
   map BigInt [''5'', ''0x10000000000000001'', ''3''] = map Some [5, 2 ^ 64 + 1, 3] \<and>
   calculateStats [''5'', ''0x10000000000000001'', ''3''] =
     Inr \<lparr>stats_max = ''18446744073709551617'', stats_min = ''3''\<rparr>"
proof -
  have m: "map BigInt [''5'', ''0x10000000000000001'', ''3''] = map Some [5, 2 ^ 64 + 1, 3]"
    by (simp add: BigInt_def trim_def is_ws_def parse_digits_def digit_val_def)
  have x: "Max (set [5, 2 ^ 64 + 1, 3 :: int]) = 2 ^ 64 + 1" "Min (set [5, 2 ^ 64 + 1, 3 :: int]) = 3"
    by simp_all
  have t: "toString 3 = ''3''"
    by (simp add: toString_def dec_digits.simps digit_char_def)
  show ?thesis
    using calculateStats_exact [of "[''5'', ''0x10000000000000001'', ''3'']" "[5, 2 ^ 64 + 1, 3]" 0]
      m x t toString_big by simp
qed

subsection \<open>The first sample of a source\<close>

lemma sdiv_double: "(2 * v) sdiv 2 = (v :: int)"
  by (auto simp: signed_divide_int_def sgn_if)

lemma toString_zero: "toString 0 = ''0''"
  by (simp add: toString_def dec_digits.simps digit_char_def)

lemma toString_eq_zero: "toString v = ''0'' \<longleftrightarrow> v = 0"
  using toString_inj [of v 0] toString_zero by auto

lemma fetch_first:
  assumes "h (name c) = None" and "gasPrice \<noteq> []" and "BigInt gasPrice = Some v"
  shows "fetchChainGasPrice (Resolved (Some gasPrice)) t c h =
     (Some \<lparr>chain = name c, priceWei = toString v, high24h = toString v, low24h = toString v,
            timestamp = t\<rparr>, h(name c \<mapsto> [toString v]))"
proof -
  have "push_history (window h (name c)) (toString v) = [toString v]"
    using assms(1) by (simp add: window_def push_history_def MAX_HISTORY_SIZE_def)
  then show ?thesis
    using assms by (simp add: fetchChainGasPrice_def calculateStats_single Let_def)
qed

text \<open>
  Claim C4. When the first value \<open>v\<close> of a source is processed (the source has no history
  yet), the stats read right after the value is appended are \<open>max = v\<close> and \<open>min = v\<close>,
  the value itself, and so are \<open>high24h\<close> and \<open>low24h\<close> of the record. The window given to
  \<open>calculateStats\<close> is not empty, so the stats are never the placeholder of the empty
  window: they are \<open>0\<close> only when the value itself is 0. No buy signal is detected on that
  record.
\<close>

theorem first_sample_stats:
  "h (name c) = None \<and> gasPrice \<noteq> [] \<and> BigInt gasPrice = Some v \<longrightarrow>
     fetchChainGasPrice (Resolved (Some gasPrice)) t c h =
       (Some \<lparr>chain = name c, priceWei = toString v, high24h = toString v,
              low24h = toString v, timestamp = t\<rparr>, h(name c \<mapsto> [toString v])) \<and>
     calculateStats (push_history (window h (name c)) (toString v)) =
       Inr \<lparr>stats_max = toString v, stats_min = toString v\<rparr> \<and>
     push_history (window h (name c)) (toString v) \<noteq> [] \<and>
     (v \<noteq> 0 \<longrightarrow> toString v \<noteq> ''0'') \<and>
     detectBuySignal \<lparr>chain = name c, priceWei = toString v, high24h = toString v,
       low24h = toString v, timestamp = t\<rparr> = Inr \<lparr>isBuySignal = False, savingsPercent = Exact 0\<rparr>"
proof (intro impI, elim conjE)
  assume a: "h (name c) = None" "gasPrice \<noteq> []" "BigInt gasPrice = Some v"
  have p: "push_history (window h (name c)) (toString v) = [toString v]"
    using a(1) by (simp add: window_def push_history_def MAX_HISTORY_SIZE_def)
  have d: "detectBuySignal \<lparr>chain = name c, priceWei = toString v, high24h = toString v,
       low24h = toString v, timestamp = t\<rparr> = Inr \<lparr>isBuySignal = False, savingsPercent = Exact 0\<rparr>"
    by (simp add: detectBuySignal_def sdiv_double Let_def)
  show "fetchChainGasPrice (Resolved (Some gasPrice)) t c h =
       (Some \<lparr>chain = name c, priceWei = toString v, high24h = toString v,
              low24h = toString v, timestamp = t\<rparr>, h(name c \<mapsto> [toString v])) \<and>
     calculateStats (push_history (window h (name c)) (toString v)) =
       Inr \<lparr>stats_max = toString v, stats_min = toString v\<rparr> \<and>
     push_history (window h (name c)) (toString v) \<noteq> [] \<and>
     (v \<noteq> 0 \<longrightarrow> toString v \<noteq> ''0'') \<and>
     detectBuySignal \<lparr>chain = name c, priceWei = toString v, high24h = toString v,
       low24h = toString v, timestamp = t\<rparr> = Inr \<lparr>isBuySignal = False, savingsPercent = Exact 0\<rparr>"
    using fetch_first [of h c gasPrice v t] a p d
    by (simp add: calculateStats_single toString_eq_zero)
qed

text \<open>The theorem at the first reply \<open>0x3b9aca00\<close> (one gwei) of the chain \<open>ethereum\<close>.\<close>

theorem first_sample_stats_witness:
  "Map.empty (name \<lparr>name = ''ethereum'', rpcUrl = ''https://eth.llamarpc.com'', enabled = True\<rparr>)
     = (None :: string list option) \<and>
   ''0x3b9aca00'' \<noteq> [] \<and> BigInt ''0x3b9aca00'' = Some 1000000000 \<and>
   fetchChainGasPrice (Resolved (Some ''0x3b9aca00'')) 17
     \<lparr>name = ''ethereum'', rpcUrl = ''https://eth.llamarpc.com'', enabled = True\<rparr> Map.empty =
     (Some \<lparr>chain = ''ethereum'', priceWei = ''1000000000'', high24h = ''1000000000'',
            low24h = ''1000000000'', timestamp = 17\<rparr>,
      [''ethereum'' \<mapsto> [''1000000000'']])"
proof -
  have b: "BigInt ''0x3b9aca00'' = Some 1000000000"
    by (simp add: BigInt_def trim_def is_ws_def parse_digits_def digit_val_def)
  have t: "toString 1000000000 = ''1000000000''"
    by (simp add: toString_def dec_digits.simps digit_char_def)
  show ?thesis
    using first_sample_stats
      [of Map.empty "\<lparr>name = ''ethereum'', rpcUrl = ''https://eth.llamarpc.com'',
            enabled = True\<rparr>" "''0x3b9aca00''" 1000000000 17]
      b t by simp
qed

subsection \<open>The price lies between low and high\<close>

lemma stats_loop_bounds:
  "stats_loop mx mn xs = Inr (a, b) \<Longrightarrow>
     mx \<le> a \<and> b \<le> mn \<and> (\<forall>x \<in> set xs. \<exists>v. BigInt x = Some v \<and> b \<le> v \<and> v \<le> a)"
proof (induction xs arbitrary: mx mn)
  case Nil
  then show ?case by simp
next
  case (Cons x xs)
  from Cons.prems obtain p where p: "BigInt x = Some p"
    and r: "stats_loop (if p > mx then p else mx) (if p < mn then p else mn) xs = Inr (a, b)"
    by (auto split: option.splits)
  from Cons.IH [OF r] p show ?case
    by (auto split: if_splits)
qed

lemma calculateStats_bounds:
  assumes "calculateStats xs = Inr st" and "x \<in> set xs"
  shows "\<exists>v lo hi. BigInt x = Some v \<and> stats_min st = toString lo \<and>
           stats_max st = toString hi \<and> lo \<le> v \<and> v \<le> hi"
proof -
  from assms(2) obtain p0 ps where xs: "xs = p0 # ps" by (cases xs) auto
  from assms(1) xs obtain v0 a b where "BigInt p0 = Some v0"
    and l: "stats_loop v0 v0 xs = Inr (a, b)"
    and st: "st = \<lparr>stats_max = toString a, stats_min = toString b\<rparr>"
    by (auto simp: calculateStats_def split: option.splits sum.splits prod.splits)
  from stats_loop_bounds [OF l] assms(2) obtain v where "BigInt x = Some v" "b \<le> v" "v \<le> a"
    by blast
  with st show ?thesis by auto
qed

lemma push_history_last: "p \<in> set (push_history w p)"
  by (simp add: push_history_def slice_last_def Let_def MAX_HISTORY_SIZE_def)

lemma fetch_record:
  assumes "fetchChainGasPrice reply t c h = (Some r, h')"
  shows "within_bounds r \<and> chain r = name c \<and> priceWei r = toString (price_of reply) \<and>
    has_price reply \<and> timestamp r = t"
proof -
  from assms obtain g v st where g: "reply = Resolved (Some g)" "g \<noteq> []" "BigInt g = Some v"
    and cs: "calculateStats (push_history (window h (name c)) (toString v)) = Inr st"
    and r: "r = \<lparr>chain = name c, priceWei = toString v, high24h = stats_max st,
                 low24h = stats_min st, timestamp = t\<rparr>"
    by (auto simp: fetchChainGasPrice_def Let_def
        split: rpc_reply.splits option.splits if_splits sum.splits)
  from calculateStats_bounds [OF cs push_history_last]
  obtain lo hi where "stats_min st = toString lo" "stats_max st = toString hi"
    "lo \<le> v" "v \<le> hi" by auto
  with r g show ?thesis
    by (simp add: within_bounds_def has_price_def price_of_def)
qed

lemma fetch_each_results:
  "fetch_each send now cs h = (rs, h') \<Longrightarrow> Some r \<in> set rs \<Longrightarrow> within_bounds r"
proof (induction cs arbitrary: h rs h')
  case Nil
  then show ?case by simp
next
  case (Cons c cs)
  obtain r1 h1 where f: "fetchChainGasPrice (send c) (now c) c h = (r1, h1)"
    by (cases "fetchChainGasPrice (send c) (now c) c h")
  obtain rs2 h2 where e: "fetch_each send now cs h1 = (rs2, h2)"
    by (cases "fetch_each send now cs h1")
  from Cons.prems f e have rs: "rs = r1 # rs2" by simp
  with Cons.prems(2) consider "r1 = Some r" | "Some r \<in> set rs2" by auto
  then show ?case
  proof cases
    case 1
    with f fetch_record show ?thesis by blast
  next
    case 2
    with Cons.IH [OF e] show ?thesis by blast
  qed
qed

lemma fetchAll_within_bounds:
  assumes "r \<in> set (fst (fetchAllGasPrices send now cs h))"
  shows "within_bounds r"
proof -
  from assms obtain rs h' where "fetch_each send now (filter enabled cs) h = (rs, h')"
    and "Some r \<in> set rs"
    by (auto simp: fetchAllGasPrices_def Let_def split: prod.splits)
  then show ?thesis using fetch_each_results by blast
qed

text \<open>
  Claim C9. Every record of a successful fetch has \<open>low24h \<le> priceWei \<le> high24h\<close> as
  integers, and hence \<open>low24h \<le> high24h\<close>: the new price is appended to the history of the
  source before \<open>calculateStats\<close> reads it. This holds for the record of
  \<open>fetchChainGasPrice\<close> and for every record of the batch of \<open>fetchAllGasPrices\<close>, whatever
  the history was.
\<close>

theorem price_within_high_low:
  "(fetchChainGasPrice reply t c h = (Some r, h') \<longrightarrow> within_bounds r) \<and>
   (\<forall>r \<in> set (fst (fetchAllGasPrices send now cs h)). within_bounds r) \<and>
   (within_bounds r \<longrightarrow>
      (\<exists>lo p hi. BigInt (low24h r) = Some lo \<and> BigInt (priceWei r) = Some p \<and>
         BigInt (high24h r) = Some hi \<and> lo \<le> p \<and> p \<le> hi \<and> lo \<le> hi))"
proof -
  have a: "fetchChainGasPrice reply t c h = (Some r, h') \<longrightarrow> within_bounds r"
    using fetch_record by blast
  have b: "\<forall>r \<in> set (fst (fetchAllGasPrices send now cs h)). within_bounds r"
    using fetchAll_within_bounds by blast
  have c: "within_bounds r \<longrightarrow>
      (\<exists>lo p hi. BigInt (low24h r) = Some lo \<and> BigInt (priceWei r) = Some p \<and>
         BigInt (high24h r) = Some hi \<and> lo \<le> p \<and> p \<le> hi \<and> lo \<le> hi)"
    by (auto simp: within_bounds_def split: option.splits)
  from a b c show ?thesis by blast
qed

text \<open>The theorem at the reply \<open>0x9\<close> for a source whose window holds 12 and 7.\<close>

lemma fetch_example:
  "fetchChainGasPrice (Resolved (Some ''0x9'')) 3
     \<lparr>name = ''base'', rpcUrl = ''https://mainnet.base.org'', enabled = True\<rparr>
     [''base'' \<mapsto> [''12'', ''7'']] =
     (Some \<lparr>chain = ''base'', priceWei = ''9'', high24h = ''12'', low24h = ''7'', timestamp = 3\<rparr>,
      [''base'' \<mapsto> [''12'', ''7'', ''9'']])"
  by (simp add: fetchChainGasPrice_def window_def push_history_def MAX_HISTORY_SIZE_def
    BigInt_def trim_def is_ws_def parse_digits_def digit_val_def toString_def dec_digits.simps
    digit_char_def calculateStats_def Let_def)

theorem price_within_high_low_witness:
  "fetchChainGasPrice (Resolved (Some ''0x9'')) 3
     \<lparr>name = ''base'', rpcUrl = ''https://mainnet.base.org'', enabled = True\<rparr>
     [''base'' \<mapsto> [''12'', ''7'']] =
     (Some \<lparr>chain = ''base'', priceWei = ''9'', high24h = ''12'', low24h = ''7'', timestamp = 3\<rparr>,
      [''base'' \<mapsto> [''12'', ''7'', ''9'']]) \<and>
   within_bounds
     \<lparr>chain = ''base'', priceWei = ''9'', high24h = ''12'', low24h = ''7'', timestamp = 3\<rparr> \<and>
   fst (fetchAllGasPrices (\<lambda>c. Resolved (Some ''0x9'')) (\<lambda>c. 3)
     [\<lparr>name = ''base'', rpcUrl = ''https://mainnet.base.org'', enabled = True\<rparr>]
     [''base'' \<mapsto> [''12'', ''7'']]) =
     [\<lparr>chain = ''base'', priceWei = ''9'', high24h = ''12'', low24h = ''7'', timestamp = 3\<rparr>] \<and>
   BigInt ''7'' = Some 7 \<and> BigInt ''9'' = Some 9 \<and> BigInt ''12'' = Some 12"
proof -
  let ?c = "\<lparr>name = ''base'', rpcUrl = ''https://mainnet.base.org'', enabled = True\<rparr>"
  let ?r = "\<lparr>chain = ''base'', priceWei = ''9'', high24h = ''12'', low24h = ''7'', timestamp = 3\<rparr>"
  have b: "BigInt ''7'' = Some 7" "BigInt ''9'' = Some 9" "BigInt ''12'' = Some 12"
    by (simp_all add: BigInt_def trim_def is_ws_def parse_digits_def digit_val_def)
  have a: "fst (fetchAllGasPrices (\<lambda>c. Resolved (Some ''0x9'')) (\<lambda>c. 3) [?c]
     [''base'' \<mapsto> [''12'', ''7'']]) = [?r]"
    by (simp add: fetchAllGasPrices_def fetch_example)
  show ?thesis
    using price_within_high_low [of "Resolved (Some ''0x9'')" 3 ?c "[''base'' \<mapsto> [''12'', ''7'']]"
        ?r "[''base'' \<mapsto> [''12'', ''7'', ''9'']]" "\<lambda>c. Resolved (Some ''0x9'')" "\<lambda>c. 3" "[?c]"]
      fetch_example a b by simp
qed

subsection \<open>A cycle with failing sources\<close>

lemma calculateStats_succeeds:
  assumes "xs \<noteq> []" and "\<forall>x \<in> set xs. BigInt x \<noteq> None"
  shows "\<exists>st. calculateStats xs = Inr st"
proof -
  from assms(2) have "map BigInt xs = map Some (map (\<lambda>x. the (BigInt x)) xs)"
    by (induction xs) auto
  with assms(1) show ?thesis
    using calculateStats_values by blast
qed

lemma set_push_history: "set (push_history w p) \<subseteq> insert p (set w)"
proof -
  have d: "set (drop k (w @ [p])) \<subseteq> insert p (set w)" for k
  proof -
    have "set (drop k (w @ [p])) \<subseteq> set (w @ [p])" by (rule set_drop_subset)
    then show ?thesis by simp
  qed
  show ?thesis
  proof (cases "length (w @ [p]) > MAX_HISTORY_SIZE")
    case True
    then have eq: "push_history w p = drop (length (w @ [p]) - MAX_HISTORY_SIZE) (w @ [p])"
      unfolding push_history_def slice_last_def Let_def by (simp only: if_True)
    show ?thesis unfolding eq by (rule d)
  next
    case False
    then have eq: "push_history w p = w @ [p]"
      unfolding push_history_def slice_last_def Let_def by (simp only: if_False)
    show ?thesis unfolding eq by simp
  qed
qed

lemma window_ok:
  assumes "history_ok h" and "x \<in> set (window h n)"
  shows "BigInt x \<noteq> None"
proof (cases "h n")
  case None
  with assms(2) show ?thesis by (simp add: window_def)
next
  case (Some xs)
  then have "xs \<in> ran h" by (rule ranI)
  moreover from Some assms(2) have "x \<in> set xs" by (simp add: window_def)
  ultimately show ?thesis using assms(1) unfolding history_ok_def by blast
qed

lemma push_history_ok:
  assumes "history_ok h" and "x \<in> set (push_history (window h n) (toString v))"
  shows "BigInt x \<noteq> None"
proof -
  from assms(2) set_push_history have "x = toString v \<or> x \<in> set (window h n)" by blast
  then show ?thesis using window_ok [OF assms(1)] by auto
qed

lemma history_ok_upd:
  assumes "history_ok h" and "\<forall>x \<in> set xs. BigInt x \<noteq> None"
  shows "history_ok (h(n \<mapsto> xs))"
  unfolding history_ok_def
proof (intro ballI)
  fix ys x assume ys: "ys \<in> ran (h(n \<mapsto> xs))" and x: "x \<in> set ys"
  from ys obtain k where "(h(n \<mapsto> xs)) k = Some ys" by (auto simp: ran_def)
  then have "ys = xs \<or> ys \<in> ran h" by (auto simp: ran_def split: if_splits)
  with x assms show "BigInt x \<noteq> None" by (auto simp: history_ok_def)
qed

lemma fetch_history_ok:
  "history_ok h \<Longrightarrow> history_ok (snd (fetchChainGasPrice reply t c h))"
  unfolding fetch_history using push_history_ok history_ok_upd by auto

lemma fetch_result:
  assumes "history_ok h"
  shows "fst (fetchChainGasPrice reply t c h) = None \<longleftrightarrow> \<not> has_price reply"
proof (cases "has_price reply")
  case False
  then show ?thesis
    by (auto simp: fetchChainGasPrice_def has_price_def split: rpc_reply.splits option.splits)
next
  case True
  then obtain g v where g: "reply = Resolved (Some g)" "g \<noteq> []" "BigInt g = Some v"
    by (auto simp: has_price_def split: rpc_reply.splits option.splits)
  have "push_history (window h (name c)) (toString v) \<noteq> []"
    using push_history_last [of "toString v" "window h (name c)"] by auto
  moreover have "\<forall>x \<in> set (push_history (window h (name c)) (toString v)). BigInt x \<noteq> None"
    using push_history_ok [OF assms] by blast
  ultimately obtain st where
    "calculateStats (push_history (window h (name c)) (toString v)) = Inr st"
    using calculateStats_succeeds by blast
  with g True show ?thesis
    by (simp add: fetchChainGasPrice_def Let_def)
qed

lemma fetch_each_batch:
  assumes "history_ok h"
  shows "map chain (map the (filter (\<lambda>r. r \<noteq> None) (fst (fetch_each send now cs h)))) =
           map name (filter (\<lambda>c. has_price (send c)) cs) \<and>
         map priceWei (map the (filter (\<lambda>r. r \<noteq> None) (fst (fetch_each send now cs h)))) =
           map (\<lambda>c. toString (price_of (send c))) (filter (\<lambda>c. has_price (send c)) cs) \<and>
         history_ok (snd (fetch_each send now cs h))"
  using assms
proof (induction cs arbitrary: h)
  case Nil
  then show ?case by simp
next
  case (Cons c cs)
  obtain r1 h1 where f: "fetchChainGasPrice (send c) (now c) c h = (r1, h1)"
    by (cases "fetchChainGasPrice (send c) (now c) c h")
  obtain rs2 h2 where e: "fetch_each send now cs h1 = (rs2, h2)"
    by (cases "fetch_each send now cs h1")
  have ok1: "history_ok h1"
    using fetch_history_ok [OF Cons.prems, of "send c" "now c" c] f by simp
  note ih = Cons.IH [OF ok1, unfolded e, simplified]
  have r1: "r1 = None \<longleftrightarrow> \<not> has_price (send c)"
    using fetch_result [OF Cons.prems, of "send c" "now c" c] f by simp
  show ?case
  proof (cases r1)
    case None
    with r1 ih f e show ?thesis by simp
  next
    case (Some r)
    with f fetch_record have "chain r = name c" "priceWei r = toString (price_of (send c))"
      by blast+
    with Some r1 ih f e show ?thesis by simp
  qed
qed

lemma fetch_each_untouched:
  assumes "\<forall>c \<in> set cs. name c = n \<longrightarrow> \<not> has_price (send c)"
  shows "snd (fetch_each send now cs h) n = h n"
  using assms
proof (induction cs arbitrary: h)
  case Nil
  then show ?case by simp
next
  case (Cons c cs)
  obtain r1 h1 where f: "fetchChainGasPrice (send c) (now c) c h = (r1, h1)"
    by (cases "fetchChainGasPrice (send c) (now c) c h")
  have "h1 n = h n"
    using fetch_history [of "send c" "now c" c h] f Cons.prems by auto
  moreover have "snd (fetch_each send now cs h1) n = h1 n"
    using Cons by simp
  ultimately show ?case using f by (simp add: split_beta)
qed

text \<open>
  Claim C6. \<open>fetchAllGasPrices\<close> returns a batch for every outcome of the fetches: a
  rejected request, a missing result, an empty or malformed text are branches that give no
  record. Where every stored price is the text of a BigInt (as in the empty history, and
  kept by every cycle), the batch holds, in the order of the chains, one record for each
  enabled chain whose reply carries a price and none for the others; if no enabled chain
  has a price the batch is empty. The history of a name none of whose enabled chains has a
  price is left as it was: nothing is appended on a failure.
\<close>

theorem fetchAll_tolerates_failures:
  "history_ok Map.empty \<and>
   (history_ok h \<longrightarrow>
      map chain (fst (fetchAllGasPrices send now cs h)) =
        map name (filter (\<lambda>c. enabled c \<and> has_price (send c)) cs) \<and>
      map priceWei (fst (fetchAllGasPrices send now cs h)) =
        map (\<lambda>c. toString (price_of (send c))) (filter (\<lambda>c. enabled c \<and> has_price (send c)) cs) \<and>
      history_ok (snd (fetchAllGasPrices send now cs h)) \<and>
      ((\<forall>c \<in> set cs. enabled c \<longrightarrow> \<not> has_price (send c)) \<longrightarrow>
         fst (fetchAllGasPrices send now cs h) = [])) \<and>
   ((\<forall>c \<in> set cs. enabled c \<and> name c = n \<longrightarrow> \<not> has_price (send c)) \<longrightarrow>
      snd (fetchAllGasPrices send now cs h) n = h n)"
proof -
  have e: "history_ok Map.empty" by (simp add: history_ok_def)
  have fs: "fst (fetchAllGasPrices send now cs h) =
      map the (filter (\<lambda>r. r \<noteq> None) (fst (fetch_each send now (filter enabled cs) h)))"
    and sn: "snd (fetchAllGasPrices send now cs h) = snd (fetch_each send now (filter enabled cs) h)"
    by (simp_all add: fetchAllGasPrices_def Let_def split: prod.splits)
  have fl: "filter (\<lambda>c. has_price (send c)) (filter enabled cs) =
      filter (\<lambda>c. enabled c \<and> has_price (send c)) cs"
    by (simp add: conj_commute)
  have a: "map chain (fst (fetchAllGasPrices send now cs h)) =
        map name (filter (\<lambda>c. enabled c \<and> has_price (send c)) cs) \<and>
      map priceWei (fst (fetchAllGasPrices send now cs h)) =
        map (\<lambda>c. toString (price_of (send c))) (filter (\<lambda>c. enabled c \<and> has_price (send c)) cs) \<and>
      history_ok (snd (fetchAllGasPrices send now cs h))" if "history_ok h"
    using fetch_each_batch [OF that, of send now "filter enabled cs"]
    unfolding fs sn fl by simp
  have b: "fst (fetchAllGasPrices send now cs h) = []"
    if "history_ok h" "\<forall>c \<in> set cs. enabled c \<longrightarrow> \<not> has_price (send c)"
  proof -
    from that(2) have "filter (\<lambda>c. enabled c \<and> has_price (send c)) cs = []"
      by (auto simp: filter_empty_conv)
    with a [OF that(1)] show ?thesis by simp
  qed
  have c: "snd (fetchAllGasPrices send now cs h) n = h n"
    if "\<forall>c \<in> set cs. enabled c \<and> name c = n \<longrightarrow> \<not> has_price (send c)"
    unfolding sn using that by (intro fetch_each_untouched) auto
  from e a b c show ?thesis by blast
qed

text \<open>
  The theorem with three chains of which \<open>base\<close> is rejected, and with three malformed
  replies.
\<close>

theorem fetchAll_tolerates_failures_witness:
  "history_ok [''base'' \<mapsto> [''4'']] \<and>
   map chain (fst (fetchAllGasPrices
      (\<lambda>c. if name c = ''base'' then Rejected else Resolved (Some ''0x5'')) (\<lambda>c. 0)
      [\<lparr>name = ''ethereum'', rpcUrl = ''https://eth.llamarpc.com'', enabled = True\<rparr>,
       \<lparr>name = ''base'', rpcUrl = ''https://mainnet.base.org'', enabled = True\<rparr>,
       \<lparr>name = ''arbitrum'', rpcUrl = ''https://arb1.arbitrum.io/rpc'', enabled = True\<rparr>]
      [''base'' \<mapsto> [''4'']])) = [''ethereum'', ''arbitrum''] \<and>
   snd (fetchAllGasPrices
      (\<lambda>c. if name c = ''base'' then Rejected else Resolved (Some ''0x5'')) (\<lambda>c. 0)
      [\<lparr>name = ''ethereum'', rpcUrl = ''https://eth.llamarpc.com'', enabled = True\<rparr>,
       \<lparr>name = ''base'', rpcUrl = ''https://mainnet.base.org'', enabled = True\<rparr>,
       \<lparr>name = ''arbitrum'', rpcUrl = ''https://arb1.arbitrum.io/rpc'', enabled = True\<rparr>]
      [''base'' \<mapsto> [''4'']]) ''base'' = Some [''4''] \<and>
   fst (fetchAllGasPrices (\<lambda>c. Resolved (Some ''gwei'')) (\<lambda>c. 0)
      [\<lparr>name = ''ethereum'', rpcUrl = ''https://eth.llamarpc.com'', enabled = True\<rparr>,
       \<lparr>name = ''base'', rpcUrl = ''https://mainnet.base.org'', enabled = True\<rparr>,
       \<lparr>name = ''arbitrum'', rpcUrl = ''https://arb1.arbitrum.io/rpc'', enabled = True\<rparr>]
      [''base'' \<mapsto> [''4'']]) = []"
proof -
  let ?cs = "[\<lparr>name = ''ethereum'', rpcUrl = ''https://eth.llamarpc.com'', enabled = True\<rparr>,
       \<lparr>name = ''base'', rpcUrl = ''https://mainnet.base.org'', enabled = True\<rparr>,
       \<lparr>name = ''arbitrum'', rpcUrl = ''https://arb1.arbitrum.io/rpc'', enabled = True\<rparr>]"
  let ?h = "[''base'' \<mapsto> [''4'']]"
  have b: "BigInt ''4'' = Some 4" "BigInt ''0x5'' = Some 5" "BigInt ''gwei'' = None"
    by (simp_all add: BigInt_def trim_def is_ws_def parse_digits_def digit_val_def)
  have ok: "history_ok ?h"
    by (simp add: history_ok_def b)
  have p: "has_price (Resolved (Some ''0x5''))" "\<not> has_price Rejected"
    "\<not> has_price (Resolved (Some ''gwei''))"
    by (simp_all add: has_price_def b)
  show ?thesis
    using fetchAll_tolerates_failures
        [of ?h "\<lambda>c. if name c = ''base'' then Rejected else Resolved (Some ''0x5'')"
          "\<lambda>c. 0" ?cs "''base''"]
      fetchAll_tolerates_failures [of ?h "\<lambda>c. Resolved (Some ''gwei'')" "\<lambda>c. 0" ?cs "''base''"]
      ok p by simp
qed

text \<open>
  The calls of one cycle resume in the order in which the replies arrive. For chains of
  different names that order does not matter: each call reads and writes the window of its
  own name only.
\<close>

lemma window_upd_other: "a \<noteq> b \<Longrightarrow> window (h(a \<mapsto> xs)) b = window h b"
  by (simp add: window_def)

lemma fetch_result_window:
  "window h1 (name c) = window h2 (name c) \<Longrightarrow>
     fst (fetchChainGasPrice r t c h1) = fst (fetchChainGasPrice r t c h2)"
  by (auto simp: fetchChainGasPrice_def Let_def split: rpc_reply.splits option.splits sum.splits)

lemma fetch_commute:
  assumes "name c1 \<noteq> name c2"
  shows "fst (fetchChainGasPrice r2 t2 c2 (snd (fetchChainGasPrice r1 t1 c1 h))) =
           fst (fetchChainGasPrice r2 t2 c2 h) \<and>
         snd (fetchChainGasPrice r2 t2 c2 (snd (fetchChainGasPrice r1 t1 c1 h))) =
           snd (fetchChainGasPrice r1 t1 c1 (snd (fetchChainGasPrice r2 t2 c2 h)))"
proof
  have "window (snd (fetchChainGasPrice r1 t1 c1 h)) (name c2) = window h (name c2)"
    using assms by (simp add: fetch_history window_upd_other)
  then show "fst (fetchChainGasPrice r2 t2 c2 (snd (fetchChainGasPrice r1 t1 c1 h))) =
           fst (fetchChainGasPrice r2 t2 c2 h)"
    by (rule fetch_result_window)
  from assms have "name c2 \<noteq> name c1" by simp
  with assms show "snd (fetchChainGasPrice r2 t2 c2 (snd (fetchChainGasPrice r1 t1 c1 h))) =
           snd (fetchChainGasPrice r1 t1 c1 (snd (fetchChainGasPrice r2 t2 c2 h)))"
    by (simp add: fetch_history window_upd_other fun_upd_twist)
qed

subsection \<open>The publisher and zero prices\<close>

lemma publishBatchUpdate_filter:
  "publishBatchUpdate config k (filter (\<lambda>d. priceWei d \<noteq> ''0'') dataArray) sub =
     publishBatchUpdate config k dataArray sub"
  by (simp add: publishBatchUpdate_def)

lemma publishBatchUpdate_submits:
  "snd (publishBatchUpdate config k dataArray sub) = sub \<or>
   snd (publishBatchUpdate config k dataArray sub) =
     sub @ [BatchUpdateGasPrices
       (packageId (sui config) @ ''::oracle::batch_update_gas_prices'')
       (adminCapId (sui config)) (oracleObjectId (sui config))
       (map chain (filter (\<lambda>d. priceWei d \<noteq> ''0'') dataArray))
       (map (\<lambda>d. the (BigInt (priceWei d))) (filter (\<lambda>d. priceWei d \<noteq> ''0'') dataArray))]"
proof -
  have t: "those (map f xs) = Some ys \<Longrightarrow> ys = map (\<lambda>x. the (f x)) xs" for f :: "'a \<Rightarrow> 'b option" and xs ys
    by (induction xs arbitrary: ys) (auto split: option.splits)
  show ?thesis
    by (auto simp: publishBatchUpdate_def Let_def dest!: t split: option.splits sum.splits)
qed

text \<open>
  Claim C10. The publisher drops zero prices. \<open>publishSingleUpdate\<close> on a record whose
  \<open>priceWei\<close> is \<open>'0'\<close> returns null and submits nothing. \<open>publishBatchUpdate\<close> acts on
  the records whose \<open>priceWei\<close> is not \<open>'0'\<close> only: it gives the same result as on the
  filtered batch, the one transaction it may submit lists the chains and prices of exactly
  those records, and when every record has the price \<open>'0'\<close> it returns null and submits
  nothing.
\<close>

theorem publisher_drops_zero_prices:
  "(priceWei data = ''0'' \<longrightarrow> publishSingleUpdate config k data sub = (None, sub)) \<and>
   publishBatchUpdate config k dataArray sub =
     publishBatchUpdate config k (filter (\<lambda>d. priceWei d \<noteq> ''0'') dataArray) sub \<and>
   ((\<forall>d \<in> set dataArray. priceWei d = ''0'') \<longrightarrow>
      publishBatchUpdate config k dataArray sub = (None, sub)) \<and>
   (snd (publishBatchUpdate config k dataArray sub) = sub \<or>
    snd (publishBatchUpdate config k dataArray sub) =
      sub @ [BatchUpdateGasPrices
        (packageId (sui config) @ ''::oracle::batch_update_gas_prices'')
        (adminCapId (sui config)) (oracleObjectId (sui config))
        (map chain (filter (\<lambda>d. priceWei d \<noteq> ''0'') dataArray))
        (map (\<lambda>d. the (BigInt (priceWei d))) (filter (\<lambda>d. priceWei d \<noteq> ''0'') dataArray))])"
proof -
  have a: "priceWei data = ''0'' \<longrightarrow> publishSingleUpdate config k data sub = (None, sub)"
    by (simp add: publishSingleUpdate_def)
  have c: "publishBatchUpdate config k dataArray sub = (None, sub)"
    if "\<forall>d \<in> set dataArray. priceWei d = ''0''"
  proof -
    from that have "filter (\<lambda>d. priceWei d \<noteq> ''0'') dataArray = []"
      by (simp add: filter_empty_conv)
    then show ?thesis by (simp add: publishBatchUpdate_def)
  qed
  from a c publishBatchUpdate_filter [of config k dataArray sub]
    publishBatchUpdate_submits [of config k dataArray sub]
  show ?thesis by simp
qed

text \<open>The theorem at a record and at a batch of two records with the price \<open>'0'\<close>.\<close>

theorem publisher_drops_zero_prices_witness:
  "priceWei \<lparr>chain = ''arc'', priceWei = ''0'', high24h = ''7'', low24h = ''0'', timestamp = 1\<rparr>
     = ''0'' \<and>
   publishSingleUpdate example_config example_sdk
     \<lparr>chain = ''arc'', priceWei = ''0'', high24h = ''7'', low24h = ''0'', timestamp = 1\<rparr> []
     = (None, []) \<and>
   publishBatchUpdate example_config example_sdk
     [\<lparr>chain = ''arc'', priceWei = ''0'', high24h = ''7'', low24h = ''0'', timestamp = 1\<rparr>,
      \<lparr>chain = ''base'', priceWei = ''0'', high24h = ''0'', low24h = ''0'', timestamp = 2\<rparr>] []
     = (None, [])"
proof -
  let ?d = "\<lparr>chain = ''arc'', priceWei = ''0'', high24h = ''7'', low24h = ''0'', timestamp = 1\<rparr>"
  let ?b = "[?d, \<lparr>chain = ''base'', priceWei = ''0'', high24h = ''0'', low24h = ''0'',
    timestamp = 2\<rparr>]"
  note t = publisher_drops_zero_prices [of ?d example_config example_sdk "[]" ?b]
  have z: "priceWei ?d = ''0''" by simp
  have a: "\<forall>d \<in> set ?b. priceWei d = ''0''" by simp
  from t z have "publishSingleUpdate example_config example_sdk ?d [] = (None, [])"
    by blast
  moreover from t a have "publishBatchUpdate example_config example_sdk ?b [] = (None, [])"
    by blast
  ultimately show ?thesis using z by blast
qed

subsection \<open>Configuration errors\<close>

lemma demo_mode:
  "str_includes ''ORACLE_PACKAGE_ID not set (will run in demo mode)'' ''demo mode''"
  "\<not> str_includes ''SUI_PRIVATE_KEY is required'' ''demo mode''"
  "\<not> str_includes ''ORACLE_OBJECT_ID not set'' ''demo mode''"
  "\<not> str_includes ''ADMIN_CAP_ID not set'' ''demo mode''"
  by simp_all

lemma valid_iff:
  "valid (validateConfig config) \<longleftrightarrow>
     privateKey (sui config) \<noteq> [] \<and> oracleObjectId (sui config) \<noteq> ''0x0'' \<and>
     adminCapId (sui config) \<noteq> ''0x0''"
  unfolding validateConfig_def Let_def
  by (simp add: demo_mode del: str_includes.simps)

lemma env_or_missing:
  "env key = None \<or> env key = Some [] \<Longrightarrow> env_or env key dflt = dflt"
  by (auto simp: env_or_def)

lemma loadConfig_sui:
  "privateKey (sui (loadConfig env)) = env_or env ''SUI_PRIVATE_KEY'' []"
  "oracleObjectId (sui (loadConfig env)) = env_or env ''ORACLE_OBJECT_ID'' ''0x0''"
  "adminCapId (sui (loadConfig env)) = env_or env ''ADMIN_CAP_ID'' ''0x0''"
  "packageId (sui (loadConfig env)) = env_or env ''ORACLE_PACKAGE_ID'' ''0x0''"
  by (simp_all add: loadConfig_def)

text \<open>
  Claim C8. A configuration that lacks the private key, the oracle object id or the admin
  cap id is reported invalid by \<open>validateConfig\<close>, and \<open>main\<close> exits with code 1 before the
  update loop; \<open>main\<close> reaches the update loop only with a configuration that validation
  passes. What lacks is a variable that is unset or empty in the environment, for which
  \<open>loadConfig\<close> puts the empty key or the placeholder \<open>0x0\<close>; \<open>validateConfig\<close> passes
  exactly the configurations with a key that is not empty and two identifiers that are
  not \<open>0x0\<close>. A missing package id alone is a warning, not an error.
\<close>

theorem configuration_errors_fatal:
  "((env ''SUI_PRIVATE_KEY'' = None \<or> env ''SUI_PRIVATE_KEY'' = Some []) \<or>
    (env ''ORACLE_OBJECT_ID'' = None \<or> env ''ORACLE_OBJECT_ID'' = Some []) \<or>
    (env ''ADMIN_CAP_ID'' = None \<or> env ''ADMIN_CAP_ID'' = Some []) \<longrightarrow>
      \<not> valid (validateConfig (loadConfig env)) \<and> main env st = Exit 1) \<and>
   (main env st = UpdateLoop \<longrightarrow> valid (validateConfig (loadConfig env))) \<and>
   (\<not> valid (validateConfig (loadConfig env)) \<longrightarrow> main env st = Exit 1) \<and>
   (valid (validateConfig config) \<longleftrightarrow>
      privateKey (sui config) \<noteq> [] \<and> oracleObjectId (sui config) \<noteq> ''0x0'' \<and>
      adminCapId (sui config) \<noteq> ''0x0'')"
proof -
  have x: "main env st = Exit 1" if "\<not> valid (validateConfig (loadConfig env))"
    using that by (simp add: main_def)
  have l: "valid (validateConfig (loadConfig env))" if "main env st = UpdateLoop"
    using that by (auto simp: main_def Let_def split: if_splits)
  have m: "\<not> valid (validateConfig (loadConfig env))"
    if "(env ''SUI_PRIVATE_KEY'' = None \<or> env ''SUI_PRIVATE_KEY'' = Some []) \<or>
      (env ''ORACLE_OBJECT_ID'' = None \<or> env ''ORACLE_OBJECT_ID'' = Some []) \<or>
      (env ''ADMIN_CAP_ID'' = None \<or> env ''ADMIN_CAP_ID'' = Some [])"
    using that env_or_missing [of env]
    unfolding valid_iff loadConfig_sui by metis
  from x l m valid_iff [of config] show ?thesis by blast
qed

text \<open>
  The theorem at the example environment without its private key, which exits, and at
  the example environment itself, which reaches the loop.
\<close>

theorem configuration_errors_fatal_witness:
  "(example_env(''SUI_PRIVATE_KEY'' := None)) ''SUI_PRIVATE_KEY'' = None \<and>
   main (example_env(''SUI_PRIVATE_KEY'' := None))
     \<lparr>publisher_constructs = True, oracle_healthy = True\<rparr> = Exit 1 \<and>
   main example_env \<lparr>publisher_constructs = True, oracle_healthy = True\<rparr> = UpdateLoop \<and>
   valid (validateConfig (loadConfig example_env)) \<and>
   \<not> valid (validateConfig (loadConfig (example_env(''SUI_PRIVATE_KEY'' := None))))"
proof -
  let ?st = "\<lparr>publisher_constructs = True, oracle_healthy = True\<rparr>"
  have v: "valid (validateConfig (loadConfig example_env))"
    unfolding valid_iff loadConfig_sui by (simp add: env_or_def example_env_def)
  have p: "packageId (sui (loadConfig example_env)) \<noteq> ''0x0''"
    unfolding loadConfig_sui by (simp add: env_or_def example_env_def)
  have m: "main example_env ?st = UpdateLoop"
    using v p by (simp add: main_def Let_def)
  note t1 = configuration_errors_fatal [of "example_env(''SUI_PRIVATE_KEY'' := None)" ?st]
  note t2 = configuration_errors_fatal [of example_env ?st]
  have k: "(example_env(''SUI_PRIVATE_KEY'' := None)) ''SUI_PRIVATE_KEY'' = None" by simp
  from t1 k have "\<not> valid (validateConfig (loadConfig (example_env(''SUI_PRIVATE_KEY'' := None))))
    \<and> main (example_env(''SUI_PRIVATE_KEY'' := None)) ?st = Exit 1"
    by blast
  with t2 m k show ?thesis by blast
qed

subsection \<open>Ticks and cycles in flight\<close>

lemma loop_run_snoc: "loop_run (evs @ [e]) = loop_step (loop_run evs) e"
  by (simp add: loop_run_def)

text \<open>
  Claim C5, as the code has it. The timer starts a cycle at every tick, whether or not an
  earlier cycle is still in flight: the cycles started are as many as the ticks, and a tick
  adds one to the cycles in flight. No tick is skipped and none is queued.
\<close>

theorem every_tick_starts_a_cycle:
  "started (loop_run evs) = count_list evs Tick \<and>
   started (loop_run (evs @ [Tick])) = started (loop_run evs) + 1 \<and>
   inFlight (loop_run (evs @ [Tick])) = inFlight (loop_run evs) + 1"
proof -
  have "started (loop_run evs) = count_list evs Tick"
  proof (induction evs rule: rev_induct)
    case Nil
    show ?case by (simp add: loop_run_def loop_start_def)
  next
    case (snoc e evs)
    then show ?case by (cases e) (simp_all add: loop_run_snoc)
  qed
  then show ?thesis by (simp add: loop_run_snoc)
qed

text \<open>
  The claim as stated fails: after one tick a cycle is in flight, and a second tick before
  that cycle ends starts another, so that two are in flight.
\<close>

theorem overlapping_cycles_counterexample:
  "0 < inFlight (loop_run [Tick]) \<and>
   started (loop_run ([Tick] @ [Tick])) \<noteq> started (loop_run [Tick]) \<and>
   \<not> inFlight (loop_run ([Tick] @ [Tick])) \<le> 1"
  by (simp add: loop_run_def loop_start_def)

subsection \<open>The counters of the update cycle\<close>

lemma within_bounds_no_throw:
  assumes "within_bounds r"
  shows "(\<exists>sg. detectBuySignal r = Inr sg) \<and> weiToGwei (priceWei r) = Inr ()"
  using assms
  by (auto simp: within_bounds_def detectBuySignal_def weiToGwei_def Let_def split: option.splits)

lemma log_prices_ok: "\<forall>r \<in> set ps. within_bounds r \<Longrightarrow> log_prices ps = Inr ()"
proof (induction ps)
  case Nil
  show ?case by simp
next
  case (Cons p ps)
  then have "within_bounds p" by simp
  from within_bounds_no_throw [OF this] obtain sg where
    "detectBuySignal p = Inr sg" "weiToGwei (priceWei p) = Inr ()" by blast
  with Cons show ?case by simp
qed

lemma cycle_body_threw:
  "isl (fst (cycle_body config k fetched sub)) \<longleftrightarrow>
     (case fetched of Inl e \<Rightarrow> True | Inr ps \<Rightarrow> ps \<noteq> [] \<and> isl (log_prices ps))"
  by (auto simp: cycle_body_def split: sum.splits)

lemma cycle_body_reached:
  "fst (cycle_body config k fetched sub) = Inr True \<longleftrightarrow>
     (case fetched of Inl e \<Rightarrow> False | Inr ps \<Rightarrow> ps \<noteq> [] \<and> \<not> isl (log_prices ps))"
  by (auto simp: cycle_body_def split: sum.splits)

lemma finish_cycle_counters:
  "updateCount (finish_cycle config k fetched s) =
     updateCount s + (if fst (cycle_body config k fetched (submitted s)) = Inr True then 1 else 0) \<and>
   errorCount (finish_cycle config k fetched s) =
     errorCount s + (if isl (fst (cycle_body config k fetched (submitted s))) then 1 else 0) \<and>
   priceHistory (finish_cycle config k fetched s) = priceHistory s"
  by (cases "cycle_body config k fetched (submitted s)")
     (auto simp: finish_cycle_def split: sum.splits)

lemma runUpdateCycle_counters:
  "errorCount (runUpdateCycle config k send now s) = errorCount s \<and>
   updateCount (runUpdateCycle config k send now s) =
     updateCount s +
       (if fst (fetchAllGasPrices send now (chains_list config) (priceHistory s)) = [] then 0 else 1)"
proof -
  obtain ps h where f: "fetchAllGasPrices send now (chains_list config) (priceHistory s) = (ps, h)"
    by (cases "fetchAllGasPrices send now (chains_list config) (priceHistory s)")
  have "\<forall>r \<in> set ps. within_bounds r"
    using fetchAll_within_bounds [of _ send now "chains_list config" "priceHistory s"] f
    by simp
  then have l: "log_prices ps = Inr ()" by (rule log_prices_ok)
  have r: "runUpdateCycle config k send now s =
      finish_cycle config k (Inr ps) (s\<lparr>priceHistory := h\<rparr>)"
    by (simp add: runUpdateCycle_def f)
  show ?thesis
    unfolding r using f l
    by (simp add: finish_cycle_counters cycle_body_threw cycle_body_reached)
qed

lemma run_cycles_mono:
  "updateCount s \<le> updateCount (run_cycles config k inputs s) \<and>
   errorCount s \<le> errorCount (run_cycles config k inputs s)"
proof (induction config k inputs s rule: run_cycles.induct)
  case (1 config k s)
  show ?case by simp
next
  case (2 config k send now rest s)
  have "updateCount s \<le> updateCount (runUpdateCycle config k send now s)"
    "errorCount s \<le> errorCount (runUpdateCycle config k send now s)"
    by (simp_all add: runUpdateCycle_counters)
  with 2 show ?case by auto
qed

text \<open>
  Claim C7. A cycle adds one to \<open>updateCount\<close> exactly when its batch is not empty and
  its body throws nothing, and one to \<open>errorCount\<close> exactly when its body throws; an empty
  batch changes neither counter. With the fetcher of this repository a failing source is
  absorbed by the fetch: whatever the replies, the cycle leaves \<open>errorCount\<close> as it is and
  adds one to \<open>updateCount\<close> exactly when some source gave a record. Neither counter ever
  decreases, over one cycle and over any run of cycles.
\<close>

theorem update_cycle_counters:
  "updateCount (finish_cycle config k fetched s) =
     updateCount s +
       (if (case fetched of Inl e \<Rightarrow> False | Inr ps \<Rightarrow> ps \<noteq> []) \<and>
           \<not> isl (fst (cycle_body config k fetched (submitted s)))
        then 1 else 0) \<and>
   errorCount (finish_cycle config k fetched s) =
     errorCount s + (if isl (fst (cycle_body config k fetched (submitted s))) then 1 else 0) \<and>
   (fetched = Inr [] \<longrightarrow>
      updateCount (finish_cycle config k fetched s) = updateCount s \<and>
      errorCount (finish_cycle config k fetched s) = errorCount s) \<and>
   errorCount (runUpdateCycle config k send now s) = errorCount s \<and>
   updateCount (runUpdateCycle config k send now s) =
     updateCount s +
       (if fst (fetchAllGasPrices send now (chains_list config) (priceHistory s)) = [] then 0 else 1) \<and>
   updateCount s \<le> updateCount (finish_cycle config k fetched s) \<and>
   errorCount s \<le> errorCount (finish_cycle config k fetched s) \<and>
   updateCount s \<le> updateCount (run_cycles config k inputs s) \<and>
   errorCount s \<le> errorCount (run_cycles config k inputs s)"
proof -
  have u: "(fst (cycle_body config k fetched (submitted s)) = Inr True) =
      ((case fetched of Inl e \<Rightarrow> False | Inr ps \<Rightarrow> ps \<noteq> []) \<and>
           \<not> isl (fst (cycle_body config k fetched (submitted s))))"
    by (auto simp: cycle_body_threw cycle_body_reached split: sum.splits)
  have e: "fetched = Inr [] \<Longrightarrow> \<not> isl (fst (cycle_body config k fetched (submitted s)))"
    by (simp add: cycle_body_threw)
  show ?thesis
    using finish_cycle_counters [of config k fetched s] e
      runUpdateCycle_counters [of config k send now s] run_cycles_mono [of s config k inputs]
    unfolding u by auto
qed

text \<open>
  The theorem at an empty batch, at a batch of one record, at a batch whose record holds a
  malformed price (the logging loop throws), at a rejected fetch, and at a cycle all of
  whose sources fail.
\<close>

lemma example_records:
  "log_prices [\<lparr>chain = ''base'', priceWei = ''9'', high24h = ''12'', low24h = ''7'', timestamp = 3\<rparr>]
     = Inr ()"
  "log_prices [\<lparr>chain = ''base'', priceWei = ''9 gwei'', high24h = ''12'', low24h = ''7'', timestamp = 3\<rparr>]
     = Inl SyntaxError"
  by (simp_all add: detectBuySignal_def weiToGwei_def BigInt_def trim_def is_ws_def parse_digits_def
      digit_val_def sdiv_nonneg Number_def gt10_def Math_round_def)

theorem update_cycle_counters_witness:
  "Inr [] = (Inr [] :: js_error + GasPriceData list) \<and>
   updateCount (finish_cycle example_config example_sdk (Inr []) fresh_bot) = 0 \<and>
   errorCount (finish_cycle example_config example_sdk (Inr []) fresh_bot) = 0 \<and>
   updateCount (finish_cycle example_config example_sdk
     (Inr [\<lparr>chain = ''base'', priceWei = ''9'', high24h = ''12'', low24h = ''7'', timestamp = 3\<rparr>])
     fresh_bot) = 1 \<and>
   errorCount (finish_cycle example_config example_sdk
     (Inr [\<lparr>chain = ''base'', priceWei = ''9'', high24h = ''12'', low24h = ''7'', timestamp = 3\<rparr>])
     fresh_bot) = 0 \<and>
   updateCount (finish_cycle example_config example_sdk
     (Inr [\<lparr>chain = ''base'', priceWei = ''9 gwei'', high24h = ''12'', low24h = ''7'', timestamp = 3\<rparr>])
     fresh_bot) = 0 \<and>
   errorCount (finish_cycle example_config example_sdk
     (Inr [\<lparr>chain = ''base'', priceWei = ''9 gwei'', high24h = ''12'', low24h = ''7'', timestamp = 3\<rparr>])
     fresh_bot) = 1 \<and>
   errorCount (finish_cycle example_config example_sdk (Inl RpcError) fresh_bot) = 1 \<and>
   updateCount (runUpdateCycle example_config example_sdk (\<lambda>c. Rejected) (\<lambda>c. 0) fresh_bot) = 0 \<and>
   errorCount (runUpdateCycle example_config example_sdk (\<lambda>c. Rejected) (\<lambda>c. 0) fresh_bot) = 0"
proof -
  let ?good = "Inr [\<lparr>chain = ''base'', priceWei = ''9'', high24h = ''12'', low24h = ''7'',
    timestamp = 3\<rparr>] :: js_error + GasPriceData list"
  let ?bad = "Inr [\<lparr>chain = ''base'', priceWei = ''9 gwei'', high24h = ''12'', low24h = ''7'',
    timestamp = 3\<rparr>] :: js_error + GasPriceData list"
  have f: "fst (fetchAllGasPrices (\<lambda>c. Rejected) (\<lambda>c. 0) (chains_list example_config)
      (priceHistory fresh_bot)) = []"
    by (simp add: fetchAllGasPrices_def example_config_def fetchChainGasPrice_def)
  have z: "updateCount fresh_bot = 0" "errorCount fresh_bot = 0"
    by (simp_all add: fresh_bot_def)
  have b: "\<not> isl (fst (cycle_body example_config example_sdk (Inr []) (submitted fresh_bot)))"
    "\<not> isl (fst (cycle_body example_config example_sdk ?good (submitted fresh_bot)))"
    "isl (fst (cycle_body example_config example_sdk ?bad (submitted fresh_bot)))"
    "isl (fst (cycle_body example_config example_sdk (Inl RpcError) (submitted fresh_bot)))"
    by (simp_all add: cycle_body_threw example_records del: log_prices.simps)
  show ?thesis
    using update_cycle_counters [of example_config example_sdk "Inr []" fresh_bot "\<lambda>c. Rejected" "\<lambda>c. 0" "[]"]
      update_cycle_counters [of example_config example_sdk ?good fresh_bot "\<lambda>c. Rejected" "\<lambda>c. 0" "[]"]
      update_cycle_counters [of example_config example_sdk ?bad fresh_bot "\<lambda>c. Rejected" "\<lambda>c. 0" "[]"]
      update_cycle_counters [of example_config example_sdk "Inl RpcError" fresh_bot "\<lambda>c. Rejected" "\<lambda>c. 0" "[]"]
      f z b by simp
qed

end
